theory Spec2Isabelle
  imports Complex_Main
begin

section \<open>The google\_calendar plugin of hal-9001: caches, refresh and suppression\<close>

text \<open>
  The development embeds the plugin's source file (package \<open>google_calendar\<close>): the
  per-room \<open>Config\<close> cache, its two lazily checked timestamps, the calendar refresh,
  the \<open>!gcal\<close> commands and the autoreply with its two spam keys.

  Conventions of the embedding.
  \<^item> An instant (\<open>time.Time\<close>) is an integer number of nanoseconds since the zero
    instant \<open>time.Time{}\<close>, which is \<open>0\<close>. A \<open>time.Duration\<close> is an integer number of
    nanoseconds; \<open>Sub\<close> saturates at the 64-bit bounds as \<open>Time.Sub\<close> does. The
    monotonic clock reading of \<open>time.Now()\<close> is not modelled.
  \<^item> \<open>Duration.Minutes\<close> and \<open>Duration.Hours\<close> are the exact rationals; the
    source compares their \<open>float64\<close> roundings with \<open>10\<close> and \<open>1.1\<close>, which
    gives the same answers: above ten minutes, above sixty-six minutes.
  \<^item> The reading of the clock that opens a run (\<open>now := time.Now()\<close>) is the
    parameter \<open>now\<close>. A run that reads the clock again, in \<open>LoadFromPrefs\<close> or in
    the \<open>updateCachedCalEvents\<close> of \<open>!gcal reload\<close>, gets \<open>NowAfter env now\<close>, a
    reading the environment chooses; nothing is assumed of it.
  \<^item> \<open>configCache\<close> maps a room id to the \<open>Config\<close> object it points to. A method
    with receiver \<open>*Config\<close> takes the object and returns the updated object; the
    caller stores it back under the room id, which is what mutation through the
    pointer amounts to (\<open>initData\<close> allocates one object per room id).
  \<^item> A handler returns \<open>Inl p\<close> when the Go code panics with \<open>p\<close>, and otherwise
    \<open>Inr (w, effs)\<close>: the new state and the list, in order, of the preference reads,
    calendar fetches, KV writes and chat replies it performed. Log lines and the
    two mutexes are left out: every run is atomic.
  \<^item> The collaborators that live outside the file (\<open>hal.GetPref\<close>, \<open>getEvents\<close>,
    \<open>time.LoadLocation\<close>, \<open>time.ParseDuration\<close>, \<open>Time.String\<close>, the later
    readings of \<open>time.Now\<close>) are the fields of
    an environment \<open>Env\<close>; \<open>evt.BodyAsArgv()\<close> is a field of the event.
\<close>

subsection \<open>Time\<close>

type_synonym Time = int
type_synonym Duration = int

definition Second :: Duration where
  "Second = 1000000000"

definition Minute :: Duration where
  "Minute = 60 * Second"

definition Hour :: Duration where
  "Hour = 60 * Minute"

definition maxDuration :: Duration where
  "maxDuration = 2 ^ 63 - 1"

definition minDuration :: Duration where
  "minDuration = - (2 ^ 63)"

text \<open>\<open>t.Sub(u)\<close>: the difference, or the nearest bound when it does not fit.\<close>

definition Sub :: "Time \<Rightarrow> Time \<Rightarrow> Duration" where
  "Sub t u = (let d = t - u in
     if maxDuration < d then maxDuration
     else if d < minDuration then minDuration
     else d)"

definition Before :: "Time \<Rightarrow> Time \<Rightarrow> bool" where
  "Before t u = (t < u)"

definition After :: "Time \<Rightarrow> Time \<Rightarrow> bool" where
  "After t u = (u < t)"

definition Minutes :: "Duration \<Rightarrow> rat" where
  "Minutes d = of_int d / of_int Minute"

definition Hours :: "Duration \<Rightarrow> rat" where
  "Hours d = of_int d / of_int Hour"

subsection \<open>Messages, errors and effects\<close>

text \<open>
  A formatted text (\<open>fmt.Sprintf\<close>, \<open>fmt.Errorf\<close>, \<open>evt.Replyf\<close>) is kept as its format
  string and arguments; a Go \<open>error\<close> is the message it carries.
\<close>

datatype message = Plain string | Fmt string "arg list"
  and arg = S string | E message | D Duration | F rat

type_synonym error = message

datatype effect =
    GetPrefCall string string
  | GetEventsCall string Time
  | SetKVCall string string Duration
  | Reply message

datatype panic = NilPointerDereference | IndexOutOfRange

subsection \<open>Data\<close>

record CalEvent =
  Name :: string
  Description :: string
  Start :: Time
  End :: Time

record Config =
  RoomId :: string
  CalendarId :: string
  Timezone :: string
  Autoreply :: bool
  AnnounceStart :: bool
  AnnounceEnd :: bool
  CalEvents :: "CalEvent list"
  LastReply :: Time
  configTs :: Time
  calTs :: Time

record Pref =
  Success :: bool
  Value :: string
  Error :: error

record Evt =
  IsChat :: bool
  Body :: string
  EvtRoomId :: string
  EvtUserId :: string
  BodyAsArgv :: "string list"

record Env =
  GetPref :: "string \<Rightarrow> string \<Rightarrow> string \<Rightarrow> string \<Rightarrow> string \<Rightarrow> string \<Rightarrow> Pref"
  getEvents :: "string \<Rightarrow> Time \<Rightarrow> error + CalEvent list"
  LoadLocation :: "string \<Rightarrow> error + string"
  ParseDuration :: "string \<Rightarrow> error + Duration"
  TimeString :: "Time \<Rightarrow> string"
  NowAfter :: "Time \<Rightarrow> Time"

record World =
  configCache :: "string \<rightharpoonup> Config"
  kv :: "string \<rightharpoonup> string \<times> Time"

definition Usage :: string where
  "Usage =
     ''!gcal (silence|status|expire|reload)\<newline>''
   @ ''!gcal silence 4h\<newline>''
   @ ''!gcal reload\<newline>''
   @ ''\<newline>''
   @ ''\<newline>''
   @ ''Even when attached, this plugin will not do anything until it is fully configured\<newline>''
   @ ''for the room. At a mininum the calendar-id needs to be set. One or all of autoreply,\<newline>''
   @ ''announce-start, and announce-end should be set to true to make anything happen.\<newline>''
   @ ''\<newline>''
   @ ''Setting up:\<newline>''
   @ ''\<newline>''
   @ ''    !prefs set --room <roomid> --plugin google_calendar --key calendar-id --value <calendar link>\<newline>''
   @ ''\<newline>''
   @ ''    autoreply: when set to true, the bot will reply with a message for any activity in the\<newline>''
   @ ''    room during hours when an event exists on the calendar. If the event has a description\<newline>''
   @ ''    set, that will be the text sent to the room. Otherwise a default message is generated.\<newline>''
   @ ''    !prefs set --room <roomid> --plugin google_calendar --key autoreply --value true\<newline>''
   @ ''\<newline>''
   @ ''    announce-(start|end): the bot will automatically announce when an event is starting or\<newline>''
   @ ''    ending. The event'' @ [CHR 0x27] @ ''s description will be included if it is not empty.\<newline>''
   @ ''    !prefs set --room <roomid> --plugin google_calendar --key announce-start --value true\<newline>''
   @ ''    !prefs set --room <roomid> --plugin google_calendar --key announce-end --value true\<newline>''
   @ ''\<newline>''
   @ ''    timezone: optional, tells the bot which timezone to report dates in\<newline>''
   @ ''    !prefs set --room <roomid> --plugin google_calendar --key timezone --value America/Los_Angeles\<newline>''"

definition DefaultTz :: string where
  "DefaultTz = ''America/Los_Angeles''"

definition DefaultMsg :: string where
  "DefaultMsg = ''Calendar event: %q''"

subsection \<open>The KV store\<close>

text \<open>
  Modelled from the spec: \<open>hal.GetKV\<close>, which is not in the file. The store keeps for
  each key a value and the instant its TTL runs out; a key is found strictly before
  that instant, and a key that is not found reads as the empty string (the source
  drops the error of \<open>GetKV\<close>).
\<close>

definition GetKV :: "World \<Rightarrow> Time \<Rightarrow> string \<Rightarrow> string" where
  "GetKV w now key =
     (case kv w key of
        None \<Rightarrow> ''''
      | Some (v, expires) \<Rightarrow> if now < expires then v else '''')"

text \<open>
  Modelled from the spec: \<open>hal.SetKV\<close>, which is not in the file. The key is written
  with its value and the instant \<open>now + ttl\<close>; an earlier entry of the key is replaced.
\<close>

definition SetKV :: "World \<Rightarrow> Time \<Rightarrow> string \<Rightarrow> string \<Rightarrow> Duration \<Rightarrow> World" where
  "SetKV w now key v ttl = w\<lparr>kv := (kv w)(key \<mapsto> (v, now + ttl))\<rparr>"

subsection \<open>Strings\<close>

text \<open>
  \<open>strings.TrimSpace\<close> over UTF-8 bytes: the six ASCII spaces, the two-byte NEL and
  NBSP, and the three-byte spaces of \<open>unicode.IsSpace\<close>.
\<close>

definition space1 :: "char \<Rightarrow> bool" where
  "space1 a = (of_char a \<in> {9, 10, 11, 12, 13, 32 :: nat})"

definition space2 :: "char \<Rightarrow> char \<Rightarrow> bool" where
  "space2 a b = (of_char a = (0xC2 :: nat) \<and> of_char b \<in> {0x85, 0xA0 :: nat})"

definition space3 :: "char \<Rightarrow> char \<Rightarrow> char \<Rightarrow> bool" where
  "space3 a b c =
     ((of_char a = (0xE1 :: nat) \<and> of_char b = (0x9A :: nat) \<and> of_char c = (0x80 :: nat))
    \<or> (of_char a = (0xE2 :: nat) \<and> of_char b = (0x80 :: nat) \<and>
         ((0x80 :: nat) \<le> of_char c \<and> of_char c \<le> (0x8A :: nat)
          \<or> of_char c \<in> {0xA8, 0xA9, 0xAF :: nat}))
    \<or> (of_char a = (0xE2 :: nat) \<and> of_char b = (0x81 :: nat) \<and> of_char c = (0x9F :: nat))
    \<or> (of_char a = (0xE3 :: nat) \<and> of_char b = (0x80 :: nat) \<and> of_char c = (0x80 :: nat)))"

fun trimLeft :: "string \<Rightarrow> string" where
  "trimLeft (a # b # c # rest) =
     (if space1 a then trimLeft (b # c # rest)
      else if space2 a b then trimLeft (c # rest)
      else if space3 a b c then trimLeft rest
      else a # b # c # rest)"
| "trimLeft [a, b] =
     (if space1 a then trimLeft [b]
      else if space2 a b then []
      else [a, b])"
| "trimLeft [a] = (if space1 a then [] else [a])"
| "trimLeft [] = []"

text \<open>The same scan from the end, on the reversed bytes.\<close>

fun trimRightRev :: "string \<Rightarrow> string" where
  "trimRightRev (c # b # a # rest) =
     (if space1 c then trimRightRev (b # a # rest)
      else if space2 b c then trimRightRev (a # rest)
      else if space3 a b c then trimRightRev rest
      else c # b # a # rest)"
| "trimRightRev [c, b] =
     (if space1 c then trimRightRev [b]
      else if space2 b c then []
      else [c, b])"
| "trimRightRev [c] = (if space1 c then [] else [c])"
| "trimRightRev [] = []"

definition TrimSpace :: "string \<Rightarrow> string" where
  "TrimSpace s = rev (trimRightRev (rev (trimLeft s)))"

definition HasPrefix :: "string \<Rightarrow> string \<Rightarrow> bool" where
  "HasPrefix s p = (take (length p) s = p)"

text \<open>\<open>strconv.ParseBool\<close>; \<open>None\<close> is its syntax error.\<close>

definition ParseBool :: "string \<Rightarrow> bool option" where
  "ParseBool str =
     (if str \<in> {''1'', ''t'', ''T'', ''true'', ''TRUE'', ''True''} then Some True
      else if str \<in> {''0'', ''f'', ''F'', ''false'', ''FALSE'', ''False''} then Some False
      else None)"

subsection \<open>Configuration\<close>

text \<open>
  \<open>initData\<close> primes the cache with a fresh object that holds only the room id.
  The periodic function it registers runs \<open>updateCachedCalEvents\<close> for the room
  every ten minutes; when it runs is outside the model.
\<close>

definition newConfig :: "string \<Rightarrow> Config" where
  "newConfig roomId =
     \<lparr>RoomId = roomId, CalendarId = '''', Timezone = '''', Autoreply = False,
      AnnounceStart = False, AnnounceEnd = False, CalEvents = [], LastReply = 0,
      configTs = 0, calTs = 0\<rparr>"

definition initData :: "World \<Rightarrow> string \<Rightarrow> World" where
  "initData w roomId = w\<lparr>configCache := (configCache w)(roomId \<mapsto> newConfig roomId)\<rparr>"

definition loadBoolPref :: "Env \<Rightarrow> Config \<Rightarrow> string \<Rightarrow> bool \<times> effect list" where
  "loadBoolPref env c key =
     (let pref = GetPref env '''' '''' (RoomId c) ''google_calendar'' key ''false'' in
      case ParseBool (Value pref) of
        None \<Rightarrow> (False, [GetPrefCall (RoomId c) key])
      | Some val \<Rightarrow> (val, [GetPrefCall (RoomId c) key]))"

text \<open>
  \<open>LoadFromPrefs\<close> returns the object as it leaves it, the preference reads, and the
  error (\<open>None\<close> for \<open>nil\<close>). Fields written before a failure stay written.
\<close>

definition LoadFromPrefs :: "Env \<Rightarrow> Time \<Rightarrow> Config \<Rightarrow> Config \<times> effect list \<times> error option" where
  "LoadFromPrefs env now c =
     (let cidpref = GetPref env '''' '''' (RoomId c) ''google_calendar'' ''calendar-id'' '''';
          e0 = [GetPrefCall (RoomId c) ''calendar-id'']
      in if \<not> Success cidpref
         then (c, e0,
               Some (Fmt ''Failed to load calendar-id preference for room %q: %s''
                       [S (RoomId c), E (Error cidpref)]))
         else
           (let c1 = c\<lparr>CalendarId := Value cidpref\<rparr>;
                (b1, e1) = loadBoolPref env c1 ''autoreply'';
                c2 = c1\<lparr>Autoreply := b1\<rparr>;
                (b2, e2) = loadBoolPref env c2 ''announce-start'';
                c3 = c2\<lparr>AnnounceStart := b2\<rparr>;
                (b3, e3) = loadBoolPref env c3 ''announce-end'';
                c4 = c3\<lparr>AnnounceEnd := b3\<rparr>;
                tzpref = GetPref env '''' '''' (RoomId c4) ''google_calendar'' ''timezone'' DefaultTz;
                e4 = [GetPrefCall (RoomId c4) ''timezone'']
            in case LoadLocation env (Value tzpref) of
                 Inl err \<Rightarrow>
                   (c4, e0 @ e1 @ e2 @ e3 @ e4,
                    Some (Fmt (''Could not load timezone info for '' @ [CHR 0x27] @ ''%s''
                                 @ [CHR 0x27] @ '': %s\<newline>'')
                            [S (Value tzpref), E err]))
               | Inr tz \<Rightarrow>
                   (c4\<lparr>Timezone := tz, configTs := NowAfter env now\<rparr>,
                    e0 @ e1 @ e2 @ e3 @ e4, None)))"

definition expireCaches :: "Config \<Rightarrow> Config" where
  "expireCaches c = c\<lparr>calTs := 0, configTs := 0\<rparr>"

text \<open>
  \<open>getCachedConfig\<close>: the lookup of a room that is not in the map gives \<open>nil\<close>, and
  reading \<open>c.configTs\<close> through it panics. The error of \<open>LoadFromPrefs\<close> is dropped.
\<close>

definition getCachedConfig ::
  "Env \<Rightarrow> World \<Rightarrow> string \<Rightarrow> Time \<Rightarrow> panic + (World \<times> Config \<times> effect list)" where
  "getCachedConfig env w roomId now =
     (case configCache w roomId of
        None \<Rightarrow> Inl NilPointerDereference
      | Some c \<Rightarrow>
          (let age = Sub now (configTs c) in
           if 10 < Minutes age
           then (case LoadFromPrefs env now c of
                   (c1, effs, _) \<Rightarrow>
                     Inr (w\<lparr>configCache := (configCache w)(roomId \<mapsto> c1)\<rparr>, c1, effs))
           else Inr (w, c, [])))"

subsection \<open>Calendar events\<close>

definition getCachedCalEvents ::
  "Env \<Rightarrow> Time \<Rightarrow> Config \<Rightarrow> Config \<times> effect list \<times> (error + CalEvent list)" where
  "getCachedCalEvents env now c =
     (let calAge = Sub now (calTs c) in
      if 11 / 10 < Hours calAge
      then (case getEvents env (CalendarId c) now of
              Inl err \<Rightarrow> (c, [GetEventsCall (CalendarId c) now], Inl err)
            | Inr evts \<Rightarrow>
                (let c1 = c\<lparr>calTs := now, CalEvents := evts\<rparr>
                 in (c1, [GetEventsCall (CalendarId c) now], Inr (CalEvents c1))))
      else (c, [], Inr (CalEvents c)))"

text \<open>
  \<open>updateCachedCalEvents\<close>, the body of the periodic function and of \<open>!gcal reload\<close>.
  Its parameter \<open>now\<close> is its own reading of the clock.
  On \<open>nil\<close> the first field access is \<open>c.mut\<close> in \<open>LoadFromPrefs\<close>.
\<close>

definition updateCachedCalEvents ::
  "Env \<Rightarrow> World \<Rightarrow> string \<Rightarrow> Time \<Rightarrow> panic + (World \<times> effect list)" where
  "updateCachedCalEvents env w roomId now =
     (case configCache w roomId of
        None \<Rightarrow> Inl NilPointerDereference
      | Some c \<Rightarrow>
          (case LoadFromPrefs env now c of
             (c1, effs, _) \<Rightarrow>
               (case getEvents env (CalendarId c1) now of
                  Inl err \<Rightarrow>
                    Inr (w\<lparr>configCache := (configCache w)(roomId \<mapsto> c1)\<rparr>,
                         effs @ [GetEventsCall (CalendarId c1) now])
                | Inr evts \<Rightarrow>
                    Inr (w\<lparr>configCache :=
                             (configCache w)(roomId \<mapsto> c1\<lparr>calTs := now, CalEvents := evts\<rparr>)\<rparr>,
                         effs @ [GetEventsCall (CalendarId c1) now]))))"

subsection \<open>Spam keys\<close>

definition getUserSpamKey :: "string \<Rightarrow> string \<Rightarrow> string" where
  "getUserSpamKey userId roomId = ''gcal-spam-'' @ userId @ ''-'' @ roomId"

definition getRoomSpamKey :: "string \<Rightarrow> string" where
  "getRoomSpamKey roomId = ''gcal-spam-'' @ roomId"

subsection \<open>Commands\<close>

text \<open>
  \<open>argv[0]\<close> on an empty \<open>argv\<close> is an index out of range. The \<open>%s\<close> argument of the
  silence reply is \<open>d.String()\<close>, kept as the duration.
\<close>

definition handleCommand ::
  "Env \<Rightarrow> World \<Rightarrow> Evt \<Rightarrow> Time \<Rightarrow> panic + (World \<times> effect list)" where
  "handleCommand env w evt now =
     (case BodyAsArgv evt of
        [] \<Rightarrow> Inl IndexOutOfRange
      | a0 # args \<Rightarrow>
          if a0 \<noteq> ''!gcal'' then Inr (w, [])
          else (case args of
            [] \<Rightarrow> Inr (w, [Reply (Fmt Usage [])])
          | a1 # rest \<Rightarrow>
             (case getCachedConfig env w (EvtRoomId evt) now of
                Inl p \<Rightarrow> Inl p
              | Inr (w1, config, effs) \<Rightarrow>
                  if a1 = ''status'' then
                    Inr (w1, effs @
                      [Reply (Fmt ''Calendar cache is %.f minutes old. Config cache is %.f minutes old.''
                         [F (Minutes (Sub now (calTs config))),
                          F (Minutes (Sub now (configTs config)))])])
                  else if a1 = ''help'' then
                    Inr (w1, effs @ [Reply (Fmt Usage [])])
                  else if a1 = ''expire'' then
                    Inr (w1\<lparr>configCache :=
                              (configCache w1)(EvtRoomId evt \<mapsto> expireCaches config)\<rparr>,
                         effs @ [Reply (Fmt ''config & calendar caches expired'' [])])
                  else if a1 = ''reload'' then
                    (case updateCachedCalEvents env
                            (w1\<lparr>configCache :=
                                  (configCache w1)(EvtRoomId evt \<mapsto> expireCaches config)\<rparr>)
                            (EvtRoomId evt) (NowAfter env now) of
                       Inl p \<Rightarrow> Inl p
                     | Inr (w2, effs2) \<Rightarrow>
                         Inr (w2, effs @ effs2 @ [Reply (Fmt ''reload complete'' [])]))
                  else if a1 = ''silence'' then
                    (case rest of
                       [a2] \<Rightarrow>
                         (case ParseDuration env a2 of
                            Inl err \<Rightarrow>
                              Inr (w1, effs @
                                [Reply (Fmt ''Invalid silence duration %q: %s'' [S a2, E err])])
                          | Inr d \<Rightarrow>
                              (let key = getRoomSpamKey (EvtRoomId evt) in
                               Inr (SetKV w1 now key ''-'' d,
                                    effs @ [SetKVCall key ''-'' d,
                                            Reply (Fmt ''Calendar notifications silenced for %s.''
                                                     [D d])])))
                     | _ \<Rightarrow>
                         Inr (w1, effs @
                           [Reply (Plain
                              ''Invalid command. A duration is requried, e.g. !gcal silence 4h'')]))
                  else Inr (w1, effs))))"

subsection \<open>Chat events\<close>

text \<open>
  The \<open>for\<close> loop of \<open>handleEvt\<close> over the cached events: the first event that
  brackets \<open>now\<close> strictly is answered, both spam keys are written, and the loop
  breaks.
\<close>

fun autoreplyLoop ::
  "Env \<Rightarrow> Time \<Rightarrow> string \<Rightarrow> string \<Rightarrow> Config \<Rightarrow> CalEvent list \<Rightarrow> World \<Rightarrow> World \<times> effect list" where
  "autoreplyLoop env now userSpamKey roomSpamKey config [] w = (w, [])"
| "autoreplyLoop env now userSpamKey roomSpamKey config (e # es) w =
     (if Autoreply config \<and> Before (Start e) now \<and> After (End e) now
      then (let msg = (if Description e = '''' then Fmt DefaultMsg [S (Name e)]
                       else Plain (Description e));
                w1 = SetKV w now userSpamKey (TimeString env now) (Hour * 2);
                w2 = SetKV w1 now roomSpamKey (TimeString env now) (Minute * 10)
            in (w2, [Reply msg,
                     SetKVCall userSpamKey (TimeString env now) (Hour * 2),
                     SetKVCall roomSpamKey (TimeString env now) (Minute * 10)]))
      else autoreplyLoop env now userSpamKey roomSpamKey config es w)"

text \<open>
  \<open>handleEvt\<close>. The two spam keys are read first; the configuration and the events
  are resolved next; the keys are looked at only after that.
\<close>

definition handleEvt ::
  "Env \<Rightarrow> World \<Rightarrow> Evt \<Rightarrow> Time \<Rightarrow> panic + (World \<times> effect list)" where
  "handleEvt env w evt now =
     (if \<not> IsChat evt \<or> Body evt = '''' then Inr (w, [])
      else if HasPrefix (TrimSpace (Body evt)) ''!'' then handleCommand env w evt now
      else
        (let userSpamKey = getUserSpamKey (EvtRoomId evt) (EvtUserId evt);
             userTs = GetKV w now userSpamKey;
             roomSpamKey = getRoomSpamKey (EvtRoomId evt);
             roomTs = GetKV w now roomSpamKey
         in case getCachedConfig env w (EvtRoomId evt) now of
              Inl p \<Rightarrow> Inl p
            | Inr (w1, config0, effs1) \<Rightarrow>
                (case getCachedCalEvents env now config0 of
                   (config, effs2, res) \<Rightarrow>
                     (let w2 = w1\<lparr>configCache := (configCache w1)(EvtRoomId evt \<mapsto> config)\<rparr>
                      in case res of
                           Inl err \<Rightarrow>
                             Inr (w2, effs1 @ effs2 @
                                  [Reply (Fmt ''Error while getting calendar data: %s'' [E err])])
                         | Inr calEvents \<Rightarrow>
                             if userTs \<noteq> '''' \<or> roomTs \<noteq> '''' then Inr (w2, effs1 @ effs2)
                             else (case autoreplyLoop env now userSpamKey roomSpamKey config
                                          calEvents w2 of
                                     (w3, effs3) \<Rightarrow> Inr (w3, effs1 @ effs2 @ effs3))))))"

subsection \<open>Vocabulary of the properties\<close>

text \<open>
  \<open>chatActivity\<close>: \<open>handleEvt\<close> takes neither of its two early exits, so the event
  is evaluated against the calendar.
\<close>

definition chatActivity :: "Evt \<Rightarrow> bool" where
  "chatActivity evt =
     (IsChat evt \<and> Body evt \<noteq> '''' \<and> \<not> HasPrefix (TrimSpace (Body evt)) ''!'')"

text \<open>
  \<open>ShouldSuppress\<close>: the test \<open>handleEvt\<close> makes on the two values it read from
  the KV store, for a user and a room.
\<close>

definition ShouldSuppress :: "World \<Rightarrow> Time \<Rightarrow> string \<Rightarrow> string \<Rightarrow> bool" where
  "ShouldSuppress w now userId roomId =
     (GetKV w now (getUserSpamKey roomId userId) \<noteq> ''''
      \<or> GetKV w now (getRoomSpamKey roomId) \<noteq> '''')"

text \<open>
  \<open>keyActive\<close> follows the specification's words: the key exists in the KV store
  with a non-empty value.
\<close>

definition keyActive :: "World \<Rightarrow> Time \<Rightarrow> string \<Rightarrow> bool" where
  "keyActive w now key =
     (case kv w key of
        None \<Rightarrow> False
      | Some (v, expires) \<Rightarrow> now < expires \<and> v \<noteq> '''')"

text \<open>\<open>active\<close> follows the specification's words: \<open>start < now < end\<close>.\<close>

definition active :: "Time \<Rightarrow> CalEvent \<Rightarrow> bool" where
  "active now e = (Start e < now \<and> now < End e)"

definition notifyMsg :: "CalEvent \<Rightarrow> message" where
  "notifyMsg e =
     (if Description e = '''' then Fmt DefaultMsg [S (Name e)] else Plain (Description e))"

definition fetchErrorReply :: "error \<Rightarrow> effect" where
  "fetchErrorReply err = Reply (Fmt ''Error while getting calendar data: %s'' [E err])"

fun isGetPref :: "effect \<Rightarrow> bool" where
  "isGetPref (GetPrefCall room key) = True"
| "isGetPref _ = False"

fun isGetEvents :: "effect \<Rightarrow> bool" where
  "isGetEvents (GetEventsCall cid asOf) = True"
| "isGetEvents _ = False"

fun isSetKV :: "effect \<Rightarrow> bool" where
  "isSetKV (SetKVCall key v ttl) = True"
| "isSetKV _ = False"

fun isReply :: "effect \<Rightarrow> bool" where
  "isReply (Reply m) = True"
| "isReply _ = False"

text \<open>A reply that announces an event: its description, or the default message.\<close>

fun isNotify :: "effect \<Rightarrow> bool" where
  "isNotify (Reply (Plain d)) = True"
| "isNotify (Reply (Fmt f args)) = (f = DefaultMsg)"
| "isNotify _ = False"

subsection \<open>Example data\<close>

text \<open>
  The clock reads 2016-01-05 04:30:00 UTC, in nanoseconds since the zero instant.
  Two overlapping events are running: the first from 04:00 to 05:00, the second
  from 04:00 to 06:00.
\<close>

definition exNow :: Time where
  "exNow = 63587565000 * Second"

definition standup :: CalEvent where
  "standup = \<lparr>Name = ''standup'', Description = ''Daily standup'',
              Start = exNow - 30 * Minute, End = exNow + 30 * Minute\<rparr>"

definition retro :: CalEvent where
  "retro = \<lparr>Name = ''retro'', Description = '''',
            Start = exNow - 30 * Minute, End = exNow + 90 * Minute\<rparr>"

definition okPref :: "string \<Rightarrow> Pref" where
  "okPref v = \<lparr>Success = True, Value = v, Error = Plain ''''\<rparr>"

definition noPref :: "string \<Rightarrow> Pref" where
  "noPref dflt = \<lparr>Success = False, Value = dflt, Error = Plain ''no such preference''\<rparr>"

text \<open>An environment in which everything works: calendar \<open>cal-1\<close> holds two events.\<close>

definition exEnv :: Env where
  "exEnv =
     \<lparr>GetPref = (\<lambda>user broker room plugin key dflt.
         if key = ''calendar-id'' then okPref ''cal-1''
         else if key = ''autoreply'' then okPref ''true''
         else noPref dflt),
      getEvents = (\<lambda>cid asOf.
         if cid = ''cal-1'' then Inr [standup, retro]
         else Inl (Plain ''unknown calendar'')),
      LoadLocation = (\<lambda>name. Inr name),
      ParseDuration = (\<lambda>s.
         if s = ''4h'' then Inr (4 * Hour) else Inl (Plain ''invalid duration'')),
      TimeString = (\<lambda>t. ''2016-01-05 04:30:00 +0000 UTC''),
      NowAfter = (\<lambda>t. t + Second)\<rparr>"

text \<open>An environment in which the preference store and the calendar are down.\<close>

definition downEnv :: Env where
  "downEnv =
     \<lparr>GetPref = (\<lambda>user broker room plugin key dflt. noPref dflt),
      getEvents = (\<lambda>cid asOf. Inl (Plain ''calendar unreachable'')),
      LoadLocation = (\<lambda>name. Inr name),
      ParseDuration = (\<lambda>s. Inl (Plain ''invalid duration'')),
      TimeString = (\<lambda>t. ''2016-01-05 04:30:00 +0000 UTC''),
      NowAfter = (\<lambda>t. t + Second)\<rparr>"

text \<open>A room whose configuration and events were both fetched five minutes ago.\<close>

definition freshConfig :: Config where
  "freshConfig =
     \<lparr>RoomId = ''ops'', CalendarId = ''cal-1'', Timezone = DefaultTz, Autoreply = True,
      AnnounceStart = False, AnnounceEnd = False, CalEvents = [standup, retro],
      LastReply = 0, configTs = exNow - 5 * Minute, calTs = exNow - 5 * Minute\<rparr>"

text \<open>The same room with the events fetched two hours ago.\<close>

definition staleConfig :: Config where
  "staleConfig = freshConfig\<lparr>calTs := exNow - 2 * Hour\<rparr>"

text \<open>The same room with the configuration loaded one hour ago.\<close>

definition oldPrefsConfig :: Config where
  "oldPrefsConfig = freshConfig\<lparr>configTs := exNow - Hour\<rparr>"

definition emptyWorld :: World where
  "emptyWorld = \<lparr>configCache = Map.empty, kv = Map.empty\<rparr>"

definition freshWorld :: World where
  "freshWorld = \<lparr>configCache = [''ops'' \<mapsto> freshConfig], kv = Map.empty\<rparr>"

definition staleWorld :: World where
  "staleWorld = \<lparr>configCache = [''ops'' \<mapsto> staleConfig], kv = Map.empty\<rparr>"

definition oldPrefsWorld :: World where
  "oldPrefsWorld = \<lparr>configCache = [''ops'' \<mapsto> oldPrefsConfig], kv = Map.empty\<rparr>"

definition chat :: "string \<Rightarrow> string \<Rightarrow> Evt" where
  "chat roomId userId =
     \<lparr>IsChat = True, Body = ''hello'', EvtRoomId = roomId, EvtUserId = userId,
      BodyAsArgv = [''hello'']\<rparr>"

definition command :: "string \<Rightarrow> string \<Rightarrow> string list \<Rightarrow> Evt" where
  "command roomId userId argv =
     \<lparr>IsChat = True, Body = ''!gcal'', EvtRoomId = roomId, EvtUserId = userId,
      BodyAsArgv = argv\<rparr>"

text \<open>The fresh room right after \<open>expireCaches\<close>.\<close>

definition expiredWorld :: World where
  "expiredWorld = \<lparr>configCache = [''ops'' \<mapsto> expireCaches freshConfig], kv = Map.empty\<rparr>"

text \<open>The expired room, silenced until one hour after \<open>exNow\<close>.\<close>

definition silencedExpiredWorld :: World where
  "silencedExpiredWorld =
     \<lparr>configCache = [''ops'' \<mapsto> expireCaches freshConfig],
      kv = [''gcal-spam-ops'' \<mapsto> (''-'', exNow + Hour)]\<rparr>"

text \<open>
  Two fresh rooms, \<open>a\<close> and \<open>a-b\<close>, and the same two rooms after user \<open>c\<close> was
  answered in room \<open>a-b\<close> at \<open>exNow\<close>.
\<close>

definition twoRooms :: World where
  "twoRooms =
     \<lparr>configCache = [''a'' \<mapsto> freshConfig\<lparr>RoomId := ''a''\<rparr>,
                     ''a-b'' \<mapsto> freshConfig\<lparr>RoomId := ''a-b''\<rparr>],
      kv = Map.empty\<rparr>"

definition notifiedTwoRooms :: World where
  "notifiedTwoRooms =
     SetKV (SetKV twoRooms exNow ''gcal-spam-a-b-c'' (TimeString exEnv exNow) (Hour * 2))
       exNow ''gcal-spam-a-b'' (TimeString exEnv exNow) (Minute * 10)"

section \<open>Properties\<close>

text \<open>
  Auxiliary facts come first: the staleness tests, the kinds of effects, the shape
  of each operation, and the values of the example data. The properties C1 to C10
  follow in order.
\<close>

subsection \<open>Staleness tests\<close>

text \<open>
  The two lazy checks compare a saturated age, as minutes or hours, with a
  threshold; they hold exactly when the true difference is above ten minutes, and
  above sixty-six minutes.
\<close>

lemma Minutes_gt: "(10 < Minutes d) = (10 * Minute < d)"
proof -
  have "(10 < Minutes d) = ((10::rat) * of_int Minute < of_int d)"
    by (simp add: Minutes_def Minute_def Second_def pos_less_divide_eq)
  also have "\<dots> = ((of_int (10 * Minute) :: rat) < of_int d)" by simp
  also have "\<dots> = (10 * Minute < d)" by (simp only: of_int_less_iff)
  finally show ?thesis .
qed

lemma Hours_gt: "(11 / 10 < Hours d) = (66 * Minute < d)"
proof -
  have "(11 / 10 < Hours d) = ((of_int (66 * Minute) :: rat) < of_int d)"
    by (simp add: Hours_def Hour_def Minute_def Second_def pos_less_divide_eq)
  also have "\<dots> = (66 * Minute < d)" by (simp only: of_int_less_iff)
  finally show ?thesis .
qed

lemma Sub_gt: "0 \<le> k \<Longrightarrow> k < maxDuration \<Longrightarrow> (k < Sub t u) = (k < t - u)"
  by (auto simp: Sub_def Let_def maxDuration_def minDuration_def)

lemma stale_config: "(10 < Minutes (Sub now ts)) = (10 * Minute < now - ts)"
proof -
  have "(10 < Minutes (Sub now ts)) = (10 * Minute < Sub now ts)"
    by (rule Minutes_gt)
  also have "\<dots> = (10 * Minute < now - ts)"
    by (rule Sub_gt) (simp_all add: Minute_def Second_def maxDuration_def)
  finally show ?thesis .
qed

lemma stale_events: "(11 / 10 < Hours (Sub now ts)) = (66 * Minute < now - ts)"
proof -
  have "(11 / 10 < Hours (Sub now ts)) = (66 * Minute < Sub now ts)"
    by (rule Hours_gt)
  also have "\<dots> = (66 * Minute < now - ts)"
    by (rule Sub_gt) (simp_all add: Minute_def Second_def maxDuration_def)
  finally show ?thesis .
qed

subsection \<open>Kinds of effects\<close>

lemma prefs_only:
  assumes "list_all isGetPref effs"
  shows "\<not> list_ex isSetKV effs" and "\<not> list_ex isNotify effs" and "\<not> list_ex isGetEvents effs"
    and "\<not> list_ex isReply effs" and "effs \<noteq> [] \<Longrightarrow> list_ex isGetPref effs"
  using assms
proof (induction effs)
  case Nil
  {
    case 1 show ?case by simp
  next
    case 2 show ?case by simp
  next
    case 3 show ?case by simp
  next
    case 4 show ?case by simp
  next
    case 5 then show ?case by simp
  }
next
  case (Cons e effs)
  {
    case 1 then show ?case using Cons.IH(1) by (cases e) simp_all
  next
    case 2 then show ?case using Cons.IH(2) by (cases e) simp_all
  next
    case 3 then show ?case using Cons.IH(3) by (cases e) simp_all
  next
    case 4 then show ?case using Cons.IH(4) by (cases e) simp_all
  next
    case 5 then show ?case by (cases e) simp_all
  }
qed

lemma prefs_only_filter:
  assumes "list_all isGetPref effs"
  shows "filter isReply effs = []" and "filter isGetEvents effs = []"
    and "filter isSetKV effs = []"
  using prefs_only(1,3,4) [OF assms] by (auto simp: list_ex_iff filter_empty_conv)

lemma fetchErrorReply_kind:
  "\<not> isNotify (fetchErrorReply err)" "isReply (fetchErrorReply err)"
  "\<not> isSetKV (fetchErrorReply err)" "\<not> isGetEvents (fetchErrorReply err)"
  "\<not> isGetPref (fetchErrorReply err)"
  by (simp_all add: fetchErrorReply_def DefaultMsg_def)

subsection \<open>Reloading and caching\<close>

lemma LoadFromPrefs_keeps:
  "calTs (fst (LoadFromPrefs env now c)) = calTs c"
  "CalEvents (fst (LoadFromPrefs env now c)) = CalEvents c"
  "RoomId (fst (LoadFromPrefs env now c)) = RoomId c"
  by (auto simp: LoadFromPrefs_def Let_def loadBoolPref_def split: option.splits sum.splits prod.splits)

lemma LoadFromPrefs_effs:
  "list_all isGetPref (fst (snd (LoadFromPrefs env now c)))"
  "hd (fst (snd (LoadFromPrefs env now c))) = GetPrefCall (RoomId c) ''calendar-id''"
  "fst (snd (LoadFromPrefs env now c)) \<noteq> []"
  by (auto simp: LoadFromPrefs_def Let_def loadBoolPref_def split: option.splits sum.splits prod.splits)

lemma LoadFromPrefs_error:
  assumes "snd (snd (LoadFromPrefs env now c)) = Some err"
  shows "\<not> isNotify (Reply err)" and "Reply err \<noteq> fetchErrorReply err'"
  using assms
  by (auto simp: LoadFromPrefs_def Let_def DefaultMsg_def fetchErrorReply_def
      split: if_splits prod.splits sum.splits)

lemma expireCaches_keeps: "RoomId (expireCaches c) = RoomId c"
  by (simp add: expireCaches_def)

lemma world_upd_same:
  "configCache w r = Some c \<Longrightarrow> w\<lparr>configCache := (configCache w)(r \<mapsto> c)\<rparr> = w"
  by (simp add: map_upd_triv)

lemma getCachedConfig_None:
  "configCache w roomId = None \<Longrightarrow> getCachedConfig env w roomId now = Inl NilPointerDereference"
  by (simp add: getCachedConfig_def)

lemma getCachedConfig_Some:
  assumes "configCache w roomId = Some c"
  shows "getCachedConfig env w roomId now =
           (if 10 * Minute < now - configTs c
            then Inr (w\<lparr>configCache := (configCache w)(roomId \<mapsto> fst (LoadFromPrefs env now c))\<rparr>,
                      fst (LoadFromPrefs env now c), fst (snd (LoadFromPrefs env now c)))
            else Inr (w, c, []))"
  using assms unfolding getCachedConfig_def Let_def stale_config
  by (simp split: prod.splits)

lemma getCachedConfig_Inr:
  assumes "getCachedConfig env w roomId now = Inr (w1, c1, effs1)"
  shows "kv w1 = kv w" and "list_all isGetPref effs1" and "configCache w1 roomId = Some c1"
    and "\<exists>c. configCache w roomId = Some c \<and> calTs c1 = calTs c \<and> CalEvents c1 = CalEvents c"
    and "\<And>r. r \<noteq> roomId \<Longrightarrow> configCache w1 r = configCache w r"
proof -
  obtain c where c: "configCache w roomId = Some c"
    using assms by (cases "configCache w roomId") (simp_all add: getCachedConfig_def)
  note eq = assms [unfolded getCachedConfig_Some [OF c]]
  show "kv w1 = kv w" using eq by (auto split: if_splits)
  show "list_all isGetPref effs1" using eq by (auto split: if_splits simp: LoadFromPrefs_effs)
  show "configCache w1 roomId = Some c1" using eq c by (auto split: if_splits)
  show "\<exists>c. configCache w roomId = Some c \<and> calTs c1 = calTs c \<and> CalEvents c1 = CalEvents c"
    using eq c by (auto split: if_splits simp: LoadFromPrefs_keeps)
  show "\<And>r. r \<noteq> roomId \<Longrightarrow> configCache w1 r = configCache w r"
    using eq by (auto split: if_splits)
qed

lemma getCachedCalEvents_eq:
  "getCachedCalEvents env now c =
     (if 66 * Minute < now - calTs c
      then (case getEvents env (CalendarId c) now of
              Inl err \<Rightarrow> (c, [GetEventsCall (CalendarId c) now], Inl err)
            | Inr evts \<Rightarrow> (c\<lparr>calTs := now, CalEvents := evts\<rparr>,
                            [GetEventsCall (CalendarId c) now], Inr evts))
      else (c, [], Inr (CalEvents c)))"
  unfolding getCachedCalEvents_def Let_def stale_events
  by (simp split: sum.splits)

lemma getCachedCalEvents_effs:
  assumes "getCachedCalEvents env now c1 = (c2, effs2, res)"
  shows "effs2 = [] \<or> effs2 = [GetEventsCall (CalendarId c1) now]"
  using assms unfolding getCachedCalEvents_eq by (auto split: if_splits sum.splits)

lemma updateCachedCalEvents_Some:
  assumes "configCache w roomId = Some c"
  shows "updateCachedCalEvents env w roomId now =
     (case getEvents env (CalendarId (fst (LoadFromPrefs env now c))) now of
        Inl err \<Rightarrow>
          Inr (w\<lparr>configCache := (configCache w)(roomId \<mapsto> fst (LoadFromPrefs env now c))\<rparr>,
               fst (snd (LoadFromPrefs env now c)) @
               [GetEventsCall (CalendarId (fst (LoadFromPrefs env now c))) now])
      | Inr evts \<Rightarrow>
          Inr (w\<lparr>configCache := (configCache w)(roomId \<mapsto>
                    (fst (LoadFromPrefs env now c))\<lparr>calTs := now, CalEvents := evts\<rparr>)\<rparr>,
               fst (snd (LoadFromPrefs env now c)) @
               [GetEventsCall (CalendarId (fst (LoadFromPrefs env now c))) now]))"
  using assms
  by (cases "LoadFromPrefs env now c") (auto simp: updateCachedCalEvents_def split: sum.splits)

lemma updateCachedCalEvents_runs:
  "configCache w roomId = Some c \<Longrightarrow> \<exists>r. updateCachedCalEvents env w roomId now = Inr r"
  by (simp add: updateCachedCalEvents_Some split: sum.splits)

subsection \<open>The run of a handler\<close>

lemma autoreplyLoop_find:
  "autoreplyLoop env now uk rk cfg evs w =
     (case find (active now) evs of
        None \<Rightarrow> (w, [])
      | Some e \<Rightarrow>
          if Autoreply cfg
          then (SetKV (SetKV w now uk (TimeString env now) (Hour * 2)) now rk
                  (TimeString env now) (Minute * 10),
                [Reply (notifyMsg e), SetKVCall uk (TimeString env now) (Hour * 2),
                 SetKVCall rk (TimeString env now) (Minute * 10)])
          else (w, []))"
proof (induction evs)
  case Nil
  show ?case by simp
next
  case (Cons e es)
  show ?case
  proof (cases "active now e")
    case True
    then have b: "Before (Start e) now" "After (End e) now"
      by (simp_all add: active_def Before_def After_def)
    show ?thesis
      using True Cons by (simp add: b notifyMsg_def Let_def split: option.splits)
  next
    case False
    then have nb: "\<not> (Before (Start e) now \<and> After (End e) now)"
      by (simp add: active_def Before_def After_def)
    have "autoreplyLoop env now uk rk cfg (e # es) w = autoreplyLoop env now uk rk cfg es w"
      using nb by auto
    then show ?thesis
      using False Cons by simp
  qed
qed

lemma autoreplyLoop_effs:
  "list_all (\<lambda>e. isNotify e \<or> isSetKV e) (snd (autoreplyLoop env now uk rk cfg evs w))"
  by (cases "find (active now) evs") (simp_all add: autoreplyLoop_find notifyMsg_def DefaultMsg_def)

lemma handleEvt_chat:
  assumes "chatActivity evt"
    and "getCachedConfig env w (EvtRoomId evt) now = Inr (w1, c1, effs1)"
    and "getCachedCalEvents env now c1 = (c2, effs2, res)"
  shows "handleEvt env w evt now =
     (case res of
        Inl err \<Rightarrow>
          Inr (w1\<lparr>configCache := (configCache w1)(EvtRoomId evt \<mapsto> c2)\<rparr>,
               effs1 @ effs2 @ [fetchErrorReply err])
      | Inr evs \<Rightarrow>
          if ShouldSuppress w now (EvtUserId evt) (EvtRoomId evt)
          then Inr (w1\<lparr>configCache := (configCache w1)(EvtRoomId evt \<mapsto> c2)\<rparr>, effs1 @ effs2)
          else Inr (fst (autoreplyLoop env now (getUserSpamKey (EvtRoomId evt) (EvtUserId evt))
                           (getRoomSpamKey (EvtRoomId evt)) c2 evs
                           (w1\<lparr>configCache := (configCache w1)(EvtRoomId evt \<mapsto> c2)\<rparr>)),
                    effs1 @ effs2 @
                    snd (autoreplyLoop env now (getUserSpamKey (EvtRoomId evt) (EvtUserId evt))
                           (getRoomSpamKey (EvtRoomId evt)) c2 evs
                           (w1\<lparr>configCache := (configCache w1)(EvtRoomId evt \<mapsto> c2)\<rparr>))))"
  using assms
  by (simp add: handleEvt_def chatActivity_def ShouldSuppress_def fetchErrorReply_def Let_def
      split: sum.splits prod.splits)

lemma handleEvt_post:
  assumes act: "chatActivity evt"
    and g: "getCachedConfig env w (EvtRoomId evt) now = Inr (w1, c1, effs1)"
    and e: "getCachedCalEvents env now c1 = (c2, effs2, res)"
  shows "\<exists>w' post. handleEvt env w evt now = Inr (w', effs1 @ effs2 @ post)
           \<and> list_all (\<lambda>e. isReply e \<or> isSetKV e) post
           \<and> (\<forall>err. res = Inl err \<longrightarrow>
                 post = [fetchErrorReply err]
                 \<and> w' = w1\<lparr>configCache := (configCache w1)(EvtRoomId evt \<mapsto> c2)\<rparr>)
           \<and> configCache w' = (configCache w1)(EvtRoomId evt \<mapsto> c2)"
proof (cases res)
  case (Inl err)
  then show ?thesis
    using handleEvt_chat [OF act g e] by (simp add: fetchErrorReply_def)
next
  case (Inr evs)
  then show ?thesis
    using handleEvt_chat [OF act g e]
    by (cases "find (active now) evs") (auto simp: autoreplyLoop_find SetKV_def)
qed

lemma handleEvt_cache_pair:
  assumes act: "chatActivity evt" and c: "configCache w (EvtRoomId evt) = Some c"
  shows "\<exists>w' effs c'. handleEvt env w evt now = Inr (w', effs)
           \<and> configCache w' (EvtRoomId evt) = Some c'
           \<and> ((CalEvents c' = CalEvents c \<and> calTs c' = calTs c)
              \<or> (\<exists>cid evts. 66 * Minute < now - calTs c \<and> getEvents env cid now = Inr evts
                     \<and> GetEventsCall cid now \<in> set effs
                     \<and> CalEvents c' = evts \<and> calTs c' = now))"
proof -
  obtain w1 c1 effs1 where g: "getCachedConfig env w (EvtRoomId evt) now = Inr (w1, c1, effs1)"
    using getCachedConfig_Some [OF c, of env now] by (auto split: if_splits)
  obtain c2 effs2 res where e: "getCachedCalEvents env now c1 = (c2, effs2, res)"
    by (cases "getCachedCalEvents env now c1") auto
  from getCachedConfig_Inr(4) [OF g] c
  have keep: "calTs c1 = calTs c" "CalEvents c1 = CalEvents c" by auto
  note h = handleEvt_chat [OF act g e]
  note e' = e [unfolded getCachedCalEvents_eq]
  show ?thesis
  proof (cases res)
    case (Inl err)
    then have "c2 = c1" using e' by (auto split: if_splits sum.splits)
    then show ?thesis using h Inl keep by simp
  next
    case (Inr evs)
    have pair: "(CalEvents c2 = CalEvents c \<and> calTs c2 = calTs c)
              \<or> (\<exists>cid evts. 66 * Minute < now - calTs c \<and> getEvents env cid now = Inr evts
                     \<and> GetEventsCall cid now \<in> set (effs1 @ effs2)
                     \<and> CalEvents c2 = evts \<and> calTs c2 = now)"
      using e' keep by (auto split: if_splits sum.splits)
    show ?thesis
    proof (cases "ShouldSuppress w now (EvtUserId evt) (EvtRoomId evt)")
      case True
      then show ?thesis using h Inr pair by simp
    next
      case False
      then show ?thesis using h Inr pair
        by (auto simp: autoreplyLoop_find SetKV_def split: option.splits)
    qed
  qed
qed

lemma handleEvt_Inr_config:
  assumes "chatActivity evt" and "handleEvt env w evt now = Inr r"
  shows "\<exists>w1 c1 effs1. getCachedConfig env w (EvtRoomId evt) now = Inr (w1, c1, effs1)"
  using assms
  by (cases "getCachedConfig env w (EvtRoomId evt) now")
     (auto simp: handleEvt_def chatActivity_def Let_def)

lemma handleCommand_runs:
  assumes c: "configCache w (EvtRoomId evt) = Some c" and argv: "BodyAsArgv evt \<noteq> []"
  shows "\<exists>r. handleCommand env w evt now = Inr r"
proof -
  obtain w1 c1 effs1 where g: "getCachedConfig env w (EvtRoomId evt) now = Inr (w1, c1, effs1)"
    using getCachedConfig_Some [OF c, of env now] by (auto split: if_splits)
  have "\<exists>r. updateCachedCalEvents env
                (w1\<lparr>configCache := (configCache w1)(EvtRoomId evt \<mapsto> expireCaches c1)\<rparr>)
                (EvtRoomId evt) (NowAfter env now) = Inr r"
    by (rule updateCachedCalEvents_runs) simp
  then obtain w2 effs2 where u: "updateCachedCalEvents env
                (w1\<lparr>configCache := (configCache w1)(EvtRoomId evt \<mapsto> expireCaches c1)\<rparr>)
                (EvtRoomId evt) (NowAfter env now) = Inr (w2, effs2)"
    by auto
  show ?thesis
    using argv
    by (auto simp: handleCommand_def g u Let_def split: list.splits sum.splits)
qed

subsection \<open>The KV store and the spam keys\<close>

lemma GetKV_keyActive: "(GetKV w now key \<noteq> '''') = keyActive w now key"
  by (simp add: GetKV_def keyActive_def split: option.splits)

lemma ShouldSuppress_keyActive:
  "ShouldSuppress w now userId roomId =
     (keyActive w now (getUserSpamKey roomId userId) \<or> keyActive w now (getRoomSpamKey roomId))"
  by (simp add: ShouldSuppress_def GetKV_keyActive)

lemma keyActive_SetKV_same:
  "v \<noteq> '''' \<Longrightarrow> t < now + ttl \<Longrightarrow> keyActive (SetKV w now key v ttl) t key"
  by (simp add: keyActive_def SetKV_def)

lemma spam_keys_differ: "getUserSpamKey roomId userId \<noteq> getRoomSpamKey roomId"
  by (simp add: getUserSpamKey_def getRoomSpamKey_def)

subsection \<open>The exact run of a chat event\<close>

lemma handleEvt_chat_find:
  assumes act: "chatActivity evt"
    and g: "getCachedConfig env w (EvtRoomId evt) now = Inr (w1, c1, effs1)"
    and e: "getCachedCalEvents env now c1 = (c2, effs2, res)"
  shows "handleEvt env w evt now =
     (case res of
        Inl err \<Rightarrow>
          Inr (w1\<lparr>configCache := (configCache w1)(EvtRoomId evt \<mapsto> c2)\<rparr>,
               effs1 @ effs2 @ [fetchErrorReply err])
      | Inr evs \<Rightarrow>
          if keyActive w now (getUserSpamKey (EvtRoomId evt) (EvtUserId evt))
             \<or> keyActive w now (getRoomSpamKey (EvtRoomId evt))
          then Inr (w1\<lparr>configCache := (configCache w1)(EvtRoomId evt \<mapsto> c2)\<rparr>, effs1 @ effs2)
          else (case find (active now) evs of
                  None \<Rightarrow>
                    Inr (w1\<lparr>configCache := (configCache w1)(EvtRoomId evt \<mapsto> c2)\<rparr>,
                         effs1 @ effs2)
                | Some ev \<Rightarrow>
                    if Autoreply c2
                    then Inr (SetKV
                                (SetKV (w1\<lparr>configCache := (configCache w1)(EvtRoomId evt \<mapsto> c2)\<rparr>)
                                   now (getUserSpamKey (EvtRoomId evt) (EvtUserId evt))
                                   (TimeString env now) (Hour * 2))
                                now (getRoomSpamKey (EvtRoomId evt)) (TimeString env now)
                                (Minute * 10),
                              effs1 @ effs2 @
                              [Reply (notifyMsg ev),
                               SetKVCall (getUserSpamKey (EvtRoomId evt) (EvtUserId evt))
                                 (TimeString env now) (Hour * 2),
                               SetKVCall (getRoomSpamKey (EvtRoomId evt))
                                 (TimeString env now) (Minute * 10)])
                    else Inr (w1\<lparr>configCache := (configCache w1)(EvtRoomId evt \<mapsto> c2)\<rparr>,
                              effs1 @ effs2)))"
  unfolding handleEvt_chat [OF act g e] ShouldSuppress_keyActive autoreplyLoop_find
  by (simp split: sum.splits option.splits)

lemma getCachedConfig_lazy:
  assumes c: "configCache w roomId = Some c"
  shows "getCachedConfig env w roomId now =
           Inr (w\<lparr>configCache := (configCache w)(roomId \<mapsto>
                     (if 10 * Minute < now - configTs c then fst (LoadFromPrefs env now c) else c))\<rparr>,
                (if 10 * Minute < now - configTs c then fst (LoadFromPrefs env now c) else c),
                (if 10 * Minute < now - configTs c then fst (snd (LoadFromPrefs env now c)) else []))"
  using getCachedConfig_Some [OF c, of env now] c by (simp add: world_upd_same)

lemma handleEvt_suppressed_props:
  assumes act: "chatActivity evt"
    and c: "configCache w (EvtRoomId evt) = Some c"
    and sup: "ShouldSuppress w now (EvtUserId evt) (EvtRoomId evt)"
  shows "\<exists>w' effs. handleEvt env w evt now = Inr (w', effs)
        \<and> kv w' = kv w
        \<and> \<not> list_ex isSetKV effs \<and> \<not> list_ex isNotify effs
        \<and> (\<forall>m. Reply m \<in> set effs \<longrightarrow>
              (\<exists>cid err. getEvents env cid now = Inl err \<and> GetEventsCall cid now \<in> set effs
                 \<and> Reply m = fetchErrorReply err))
        \<and> (list_ex isGetPref effs \<longleftrightarrow> 10 * Minute < now - configTs c)
        \<and> (list_ex isGetEvents effs \<longleftrightarrow> 66 * Minute < now - calTs c)
        \<and> (\<not> 10 * Minute < now - configTs c \<and> \<not> 66 * Minute < now - calTs c \<longrightarrow>
              w' = w \<and> effs = [])"
proof -
  obtain w1 c1 effs1 where g: "getCachedConfig env w (EvtRoomId evt) now = Inr (w1, c1, effs1)"
    using getCachedConfig_Some [OF c, of env now] by (auto split: if_splits)
  obtain c2 effs2 res where e: "getCachedCalEvents env now c1 = (c2, effs2, res)"
    by (cases "getCachedCalEvents env now c1") auto
  have keep: "calTs c1 = calTs c" using getCachedConfig_Inr(4) [OF g] c by auto
  have kv1: "kv w1 = kv w" by (rule getCachedConfig_Inr(1) [OF g])
  have p1: "list_all isGetPref effs1" by (rule getCachedConfig_Inr(2) [OF g])
  note q1 = prefs_only [OF p1]
  have ne1: "effs1 \<noteq> [] \<longleftrightarrow> 10 * Minute < now - configTs c"
    using g unfolding getCachedConfig_Some [OF c] by (auto split: if_splits simp: LoadFromPrefs_effs)
  have ex1: "list_ex isGetPref effs1 \<longleftrightarrow> 10 * Minute < now - configTs c"
    using ne1 q1(5) by auto
  have fresh1: "\<not> 10 * Minute < now - configTs c \<Longrightarrow> w1 = w \<and> c1 = c"
    using g unfolding getCachedConfig_Some [OF c] by simp
  note e' = e [unfolded getCachedCalEvents_eq keep]
  define w2 where "w2 = w1\<lparr>configCache := (configCache w1)(EvtRoomId evt \<mapsto> c2)\<rparr>"
  have kv2: "kv w2 = kv w" by (simp add: w2_def kv1)
  have h: "handleEvt env w evt now =
             (case res of Inl err \<Rightarrow> Inr (w2, effs1 @ effs2 @ [fetchErrorReply err])
              | Inr evs \<Rightarrow> Inr (w2, effs1 @ effs2))"
    using handleEvt_chat [OF act g e] sup by (simp add: w2_def split: sum.splits)
  show ?thesis
  proof (cases "66 * Minute < now - calTs c")
    case False
    then have r: "c2 = c1" "effs2 = []" "res = Inr (CalEvents c1)"
      using e' by auto
    have "\<not> 10 * Minute < now - configTs c \<Longrightarrow> w2 = w"
      using fresh1 c by (simp add: w2_def r world_upd_same)
    then show ?thesis
      using h r False kv2 q1 ex1 ne1 by (auto simp: list_ex_iff)
  next
    case True
    show ?thesis
    proof (cases "getEvents env (CalendarId c1) now")
      case (Inl err)
      then have r: "effs2 = [GetEventsCall (CalendarId c1) now]" "res = Inl err"
        using e' True by auto
      show ?thesis
        using h r True Inl kv2 q1 ex1
        by (auto simp: list_ex_iff fetchErrorReply_kind)
    next
      case (Inr evts)
      then have r: "effs2 = [GetEventsCall (CalendarId c1) now]" "res = Inr evts"
        using e' True by auto
      show ?thesis
        using h r True kv2 q1 ex1
        by (auto simp: list_ex_iff)
    qed
  qed
qed

lemma handleEvt_suppressed_run:
  assumes act: "chatActivity evt"
    and c: "configCache w (EvtRoomId evt) = Some c"
    and sup: "ShouldSuppress w now (EvtUserId evt) (EvtRoomId evt)"
  shows "handleEvt env w evt now =
     (let c1 = (if 10 * Minute < now - configTs c then fst (LoadFromPrefs env now c) else c);
          effs1 = (if 10 * Minute < now - configTs c then fst (snd (LoadFromPrefs env now c))
                   else [])
      in if 66 * Minute < now - calTs c
         then (case getEvents env (CalendarId c1) now of
                 Inl err \<Rightarrow>
                   Inr (w\<lparr>configCache := (configCache w)(EvtRoomId evt \<mapsto> c1)\<rparr>,
                        effs1 @ [GetEventsCall (CalendarId c1) now, fetchErrorReply err])
               | Inr evts \<Rightarrow>
                   Inr (w\<lparr>configCache :=
                            (configCache w)(EvtRoomId evt \<mapsto> c1\<lparr>calTs := now, CalEvents := evts\<rparr>)\<rparr>,
                        effs1 @ [GetEventsCall (CalendarId c1) now]))
         else Inr (w\<lparr>configCache := (configCache w)(EvtRoomId evt \<mapsto> c1)\<rparr>, effs1))"
proof -
  let ?c1 = "if 10 * Minute < now - configTs c then fst (LoadFromPrefs env now c) else c"
  let ?effs1 = "if 10 * Minute < now - configTs c then fst (snd (LoadFromPrefs env now c)) else []"
  let ?w1 = "w\<lparr>configCache := (configCache w)(EvtRoomId evt \<mapsto> ?c1)\<rparr>"
  have g: "getCachedConfig env w (EvtRoomId evt) now = Inr (?w1, ?c1, ?effs1)"
    by (rule getCachedConfig_lazy [OF c])
  have keep: "calTs ?c1 = calTs c" by (simp add: LoadFromPrefs_keeps)
  obtain c2 effs2 res where e: "getCachedCalEvents env now ?c1 = (c2, effs2, res)"
    by (cases "getCachedCalEvents env now ?c1") auto
  note e' = e [unfolded getCachedCalEvents_eq keep]
  have k: "keyActive w now (getUserSpamKey (EvtRoomId evt) (EvtUserId evt))
             \<or> keyActive w now (getRoomSpamKey (EvtRoomId evt))"
    using sup by (simp add: ShouldSuppress_keyActive)
  have h: "handleEvt env w evt now =
     (case res of
        Inl err \<Rightarrow>
          Inr (w\<lparr>configCache := (configCache w)(EvtRoomId evt \<mapsto> c2)\<rparr>,
               ?effs1 @ effs2 @ [fetchErrorReply err])
      | Inr evs \<Rightarrow>
          Inr (w\<lparr>configCache := (configCache w)(EvtRoomId evt \<mapsto> c2)\<rparr>, ?effs1 @ effs2))"
    unfolding handleEvt_chat_find [OF act g e] using k by (simp split: sum.splits)
  show ?thesis
  proof (cases "66 * Minute < now - calTs c")
    case False
    then have "c2 = ?c1" "effs2 = []" "res = Inr (CalEvents ?c1)"
      using e' by auto
    then show ?thesis unfolding h Let_def using False by simp
  next
    case True
    show ?thesis
    proof (cases "getEvents env (CalendarId ?c1) now")
      case (Inl err)
      then have "c2 = ?c1" "effs2 = [GetEventsCall (CalendarId ?c1) now]" "res = Inl err"
        using e' True by auto
      then show ?thesis unfolding h Let_def using True Inl by simp
    next
      case (Inr evts)
      then have "c2 = ?c1\<lparr>calTs := now, CalEvents := evts\<rparr>"
        "effs2 = [GetEventsCall (CalendarId ?c1) now]" "res = Inr evts"
        using e' True by auto
      then show ?thesis unfolding h Let_def using True Inr by simp
    qed
  qed
qed

lemma handleEvt_reload_props:
  assumes act: "chatActivity evt"
    and c: "configCache w (EvtRoomId evt) = Some c"
    and stale: "10 * Minute < now - configTs c"
  shows "getCachedConfig env w (EvtRoomId evt) now =
           Inr (w\<lparr>configCache := (configCache w)(EvtRoomId evt \<mapsto> fst (LoadFromPrefs env now c))\<rparr>,
                fst (LoadFromPrefs env now c), fst (snd (LoadFromPrefs env now c)))
       \<and> fst (snd (LoadFromPrefs env now c)) \<noteq> []
       \<and> hd (fst (snd (LoadFromPrefs env now c))) = GetPrefCall (RoomId c) ''calendar-id''
       \<and> (\<exists>w' post. handleEvt env w evt now = Inr (w', fst (snd (LoadFromPrefs env now c)) @ post)
             \<and> (\<forall>m. Reply m \<in> set post \<longrightarrow>
                   isNotify (Reply m)
                   \<or> (\<exists>cid err. getEvents env cid now = Inl err \<and> Reply m = fetchErrorReply err))
             \<and> (\<forall>err. snd (snd (LoadFromPrefs env now c)) = Some err \<longrightarrow>
                   Reply err \<notin> set (fst (snd (LoadFromPrefs env now c)) @ post)))"
proof -
  let ?c1 = "fst (LoadFromPrefs env now c)"
  let ?effs1 = "fst (snd (LoadFromPrefs env now c))"
  have g: "getCachedConfig env w (EvtRoomId evt) now =
           Inr (w\<lparr>configCache := (configCache w)(EvtRoomId evt \<mapsto> ?c1)\<rparr>, ?c1, ?effs1)"
    using getCachedConfig_Some [OF c, of env now] stale by simp
  obtain c2 effs2 res where e: "getCachedCalEvents env now ?c1 = (c2, effs2, res)"
    by (cases "getCachedCalEvents env now ?c1") auto
  note e' = e [unfolded getCachedCalEvents_eq]
  note h = handleEvt_chat [OF act g e]
  have p1: "list_all isGetPref ?effs1" by (rule LoadFromPrefs_effs(1))
  have noreply1: "\<And>m. Reply m \<notin> set ?effs1"
    using prefs_only(4) [OF p1] by (auto simp: list_ex_iff)
  have main: "\<exists>w' post. handleEvt env w evt now = Inr (w', ?effs1 @ post)
             \<and> (\<forall>m. Reply m \<in> set post \<longrightarrow>
                   isNotify (Reply m)
                   \<or> (\<exists>cid err. getEvents env cid now = Inl err \<and> Reply m = fetchErrorReply err))"
  proof (cases res)
    case (Inl err)
    then have "getEvents env (CalendarId ?c1) now = Inl err"
          and "effs2 = [GetEventsCall (CalendarId ?c1) now]"
      using e' by (auto split: if_splits sum.splits)
    then show ?thesis using h Inl by auto
  next
    case (Inr evs)
    have effs2: "\<And>m. Reply m \<notin> set effs2"
      using getCachedCalEvents_effs [OF e] by auto
    show ?thesis
    proof (cases "ShouldSuppress w now (EvtUserId evt) (EvtRoomId evt)")
      case True
      then show ?thesis using h Inr effs2 by auto
    next
      case False
      let ?loop = "autoreplyLoop env now (getUserSpamKey (EvtRoomId evt) (EvtUserId evt))
                     (getRoomSpamKey (EvtRoomId evt)) c2 evs
                     (w\<lparr>configCache := (configCache w)(EvtRoomId evt \<mapsto> ?c1)\<rparr>
                       \<lparr>configCache :=
                          (configCache (w\<lparr>configCache := (configCache w)(EvtRoomId evt \<mapsto> ?c1)\<rparr>))
                          (EvtRoomId evt \<mapsto> c2)\<rparr>)"
      have hh: "handleEvt env w evt now = Inr (fst ?loop, ?effs1 @ effs2 @ snd ?loop)"
        using h Inr False by simp
      have "list_all (\<lambda>e. isNotify e \<or> isSetKV e) (snd ?loop)"
        by (rule autoreplyLoop_effs)
      then have "\<And>m. Reply m \<in> set (snd ?loop) \<Longrightarrow> isNotify (Reply m)"
        by (auto simp: list_all_iff)
      then show ?thesis using hh effs2 by auto
    qed
  qed
  then obtain w' post where hp: "handleEvt env w evt now = Inr (w', ?effs1 @ post)"
    and rp: "\<forall>m. Reply m \<in> set post \<longrightarrow>
                   isNotify (Reply m)
                   \<or> (\<exists>cid err. getEvents env cid now = Inl err \<and> Reply m = fetchErrorReply err)"
    by blast
  have dropped: "\<forall>err. snd (snd (LoadFromPrefs env now c)) = Some err \<longrightarrow>
                   Reply err \<notin> set (?effs1 @ post)"
  proof (intro allI impI)
    fix err
    assume s: "snd (snd (LoadFromPrefs env now c)) = Some err"
    show "Reply err \<notin> set (?effs1 @ post)"
      using rp noreply1 LoadFromPrefs_error [OF s] by auto
  qed
  show ?thesis
    using g hp rp dropped LoadFromPrefs_effs(2,3) [of env now c] by blast
qed

lemma handleEvt_reload_run:
  assumes act: "chatActivity evt"
    and c: "configCache w (EvtRoomId evt) = Some c"
    and stale: "10 * Minute < now - configTs c"
  shows "handleEvt env w evt now =
     (case getCachedCalEvents env now (fst (LoadFromPrefs env now c)) of
        (c2, effs2, res) \<Rightarrow>
          (case res of
             Inl err \<Rightarrow>
               Inr (w\<lparr>configCache := (configCache w)(EvtRoomId evt \<mapsto> c2)\<rparr>,
                    fst (snd (LoadFromPrefs env now c)) @ effs2 @ [fetchErrorReply err])
           | Inr evs \<Rightarrow>
               if ShouldSuppress w now (EvtUserId evt) (EvtRoomId evt)
               then Inr (w\<lparr>configCache := (configCache w)(EvtRoomId evt \<mapsto> c2)\<rparr>,
                         fst (snd (LoadFromPrefs env now c)) @ effs2)
               else (case find (active now) evs of
                       None \<Rightarrow>
                         Inr (w\<lparr>configCache := (configCache w)(EvtRoomId evt \<mapsto> c2)\<rparr>,
                              fst (snd (LoadFromPrefs env now c)) @ effs2)
                     | Some ev \<Rightarrow>
                         if Autoreply c2
                         then Inr (SetKV
                                     (SetKV (w\<lparr>configCache := (configCache w)(EvtRoomId evt \<mapsto> c2)\<rparr>)
                                        now (getUserSpamKey (EvtRoomId evt) (EvtUserId evt))
                                        (TimeString env now) (Hour * 2))
                                     now (getRoomSpamKey (EvtRoomId evt)) (TimeString env now)
                                     (Minute * 10),
                                   fst (snd (LoadFromPrefs env now c)) @ effs2 @
                                   [Reply (notifyMsg ev),
                                    SetKVCall (getUserSpamKey (EvtRoomId evt) (EvtUserId evt))
                                      (TimeString env now) (Hour * 2),
                                    SetKVCall (getRoomSpamKey (EvtRoomId evt))
                                      (TimeString env now) (Minute * 10)])
                         else Inr (w\<lparr>configCache := (configCache w)(EvtRoomId evt \<mapsto> c2)\<rparr>,
                                   fst (snd (LoadFromPrefs env now c)) @ effs2))))"
proof -
  let ?c1 = "fst (LoadFromPrefs env now c)"
  let ?effs1 = "fst (snd (LoadFromPrefs env now c))"
  have g: "getCachedConfig env w (EvtRoomId evt) now =
             Inr (w\<lparr>configCache := (configCache w)(EvtRoomId evt \<mapsto> ?c1)\<rparr>, ?c1, ?effs1)"
    using getCachedConfig_lazy [OF c, of env now] stale by simp
  obtain c2 effs2 res where e: "getCachedCalEvents env now ?c1 = (c2, effs2, res)"
    by (cases "getCachedCalEvents env now ?c1") auto
  show ?thesis
    unfolding handleEvt_chat_find [OF act g e] e ShouldSuppress_keyActive
    by (simp split: sum.splits option.splits)
qed

lemma silence_props:
  "(ShouldSuppress w now userId roomId \<longleftrightarrow>
      keyActive w now (getUserSpamKey roomId userId) \<or> keyActive w now (getRoomSpamKey roomId))
   \<and> (BodyAsArgv evt = [''!gcal'', ''silence'', arg] \<and> ParseDuration env arg = Inr d
        \<and> configCache w (EvtRoomId evt) = Some c \<longrightarrow>
       (\<exists>w' effs. handleCommand env w evt now = Inr (w', effs)
          \<and> kv w' = (kv w)(getRoomSpamKey (EvtRoomId evt) \<mapsto> (''-'', now + d))
          \<and> filter isSetKV effs = [SetKVCall (getRoomSpamKey (EvtRoomId evt)) ''-'' d]
          \<and> (\<forall>user t. now \<le> t \<and> t < now + d \<longrightarrow> ShouldSuppress w' t user (EvtRoomId evt))))"
proof (intro conjI impI)
  show "ShouldSuppress w now userId roomId \<longleftrightarrow>
      keyActive w now (getUserSpamKey roomId userId) \<or> keyActive w now (getRoomSpamKey roomId)"
    by (rule ShouldSuppress_keyActive)
next
  assume h: "BodyAsArgv evt = [''!gcal'', ''silence'', arg] \<and> ParseDuration env arg = Inr d
        \<and> configCache w (EvtRoomId evt) = Some c"
  then have argv: "BodyAsArgv evt = [''!gcal'', ''silence'', arg]"
    and d: "ParseDuration env arg = Inr d"
    and c: "configCache w (EvtRoomId evt) = Some c" by auto
  obtain w1 c1 effs1 where g: "getCachedConfig env w (EvtRoomId evt) now = Inr (w1, c1, effs1)"
    using getCachedConfig_Some [OF c, of env now] by (auto split: if_splits)
  have kv1: "kv w1 = kv w" by (rule getCachedConfig_Inr(1) [OF g])
  have p1: "filter isSetKV effs1 = []"
    using prefs_only(1) [OF getCachedConfig_Inr(2) [OF g]] by (auto simp: list_ex_iff filter_empty_conv)
  let ?key = "getRoomSpamKey (EvtRoomId evt)"
  let ?w' = "SetKV w1 now ?key ''-'' d"
  have r: "handleCommand env w evt now =
             Inr (?w', effs1 @ [SetKVCall ?key ''-'' d,
                                Reply (Fmt ''Calendar notifications silenced for %s.'' [D d])])"
    by (simp add: handleCommand_def argv g d Let_def)
  have k: "kv ?w' = (kv w)(?key \<mapsto> (''-'', now + d))"
    by (simp add: SetKV_def kv1)
  have s: "\<forall>user t. now \<le> t \<and> t < now + d \<longrightarrow> ShouldSuppress ?w' t user (EvtRoomId evt)"
    by (simp add: ShouldSuppress_keyActive keyActive_SetKV_same)
  show "\<exists>w' effs. handleCommand env w evt now = Inr (w', effs)
          \<and> kv w' = (kv w)(getRoomSpamKey (EvtRoomId evt) \<mapsto> (''-'', now + d))
          \<and> filter isSetKV effs = [SetKVCall (getRoomSpamKey (EvtRoomId evt)) ''-'' d]
          \<and> (\<forall>user t. now \<le> t \<and> t < now + d \<longrightarrow> ShouldSuppress w' t user (EvtRoomId evt))"
    using r k s p1 by simp
qed

subsection \<open>Facts of the example data\<close>

lemma ex_chat: "chatActivity (chat r u)"
  by (simp add: chatActivity_def chat_def HasPrefix_def TrimSpace_def space1_def space2_def space3_def)

lemmas ex_time = exNow_def Hour_def Minute_def Second_def

lemma ex_fresh_config:
  "getCachedConfig env freshWorld ''ops'' exNow = Inr (freshWorld, freshConfig, [])"
proof -
  have "configCache freshWorld ''ops'' = Some freshConfig" by (simp add: freshWorld_def)
  from getCachedConfig_Some [OF this, of env exNow] show ?thesis
    by (simp add: freshConfig_def ex_time)
qed

lemma ex_fresh_events:
  "getCachedCalEvents env exNow freshConfig = (freshConfig, [], Inr [standup, retro])"
  by (simp add: getCachedCalEvents_eq) (simp add: freshConfig_def ex_time)

lemma ex_not_suppressed: "\<not> ShouldSuppress freshWorld now u r"
  by (simp add: ShouldSuppress_def GetKV_def freshWorld_def)

lemma ex_stale_config:
  "getCachedConfig env staleWorld ''ops'' exNow = Inr (staleWorld, staleConfig, [])"
proof -
  have "configCache staleWorld ''ops'' = Some staleConfig" by (simp add: staleWorld_def)
  from getCachedConfig_Some [OF this, of env exNow] show ?thesis
    by (simp add: staleConfig_def freshConfig_def ex_time)
qed

lemma ex_reload_ok:
  "RoomId c = ''ops'' \<Longrightarrow>
   LoadFromPrefs exEnv now c =
     (c\<lparr>CalendarId := ''cal-1'', Autoreply := True, AnnounceStart := False, AnnounceEnd := False,
        Timezone := DefaultTz, configTs := NowAfter exEnv now\<rparr>,
      [GetPrefCall ''ops'' ''calendar-id'', GetPrefCall ''ops'' ''autoreply'',
       GetPrefCall ''ops'' ''announce-start'', GetPrefCall ''ops'' ''announce-end'',
       GetPrefCall ''ops'' ''timezone''],
      None)"
  by (simp add: LoadFromPrefs_def loadBoolPref_def exEnv_def okPref_def noPref_def ParseBool_def
      Let_def)

lemma ex_reload_down:
  "LoadFromPrefs downEnv now c =
     (c, [GetPrefCall (RoomId c) ''calendar-id''],
      Some (Fmt ''Failed to load calendar-id preference for room %q: %s''
              [S (RoomId c), E (Plain ''no such preference'')]))"
  by (simp add: LoadFromPrefs_def downEnv_def noPref_def)

lemma ex_silenced: "ShouldSuppress silencedExpiredWorld exNow u ''ops''"
  by (simp add: ShouldSuppress_def GetKV_def silencedExpiredWorld_def getRoomSpamKey_def
      getUserSpamKey_def Hour_def Minute_def Second_def)

lemma ex_expired_fields:
  "RoomId (expireCaches freshConfig) = ''ops''"
  "CalendarId (expireCaches freshConfig) = ''cal-1''"
  "configTs (expireCaches freshConfig) = 0"
  "calTs (expireCaches freshConfig) = 0"
  by (simp_all add: expireCaches_def freshConfig_def)

lemma ex_oldPrefs_fields:
  "RoomId oldPrefsConfig = ''ops''" "configTs oldPrefsConfig = exNow - Hour"
  "calTs oldPrefsConfig = exNow - 5 * Minute" "CalEvents oldPrefsConfig = [standup, retro]"
  "Autoreply oldPrefsConfig"
  by (simp_all add: oldPrefsConfig_def freshConfig_def)

lemma ex_active: "active exNow standup" "active exNow retro"
  by (simp_all add: active_def standup_def retro_def ex_time)

lemma ex_fresh_room:
  assumes "configCache w r = Some (freshConfig\<lparr>RoomId := r'\<rparr>)"
  shows "getCachedConfig env w r exNow = Inr (w, freshConfig\<lparr>RoomId := r'\<rparr>, [])"
    and "getCachedCalEvents env exNow (freshConfig\<lparr>RoomId := r'\<rparr>)
           = (freshConfig\<lparr>RoomId := r'\<rparr>, [], Inr [standup, retro])"
proof -
  show "getCachedConfig env w r exNow = Inr (w, freshConfig\<lparr>RoomId := r'\<rparr>, [])"
    using getCachedConfig_Some [OF assms, of env exNow]
    by (simp add: freshConfig_def ex_time)
  show "getCachedCalEvents env exNow (freshConfig\<lparr>RoomId := r'\<rparr>)
           = (freshConfig\<lparr>RoomId := r'\<rparr>, [], Inr [standup, retro])"
    unfolding getCachedCalEvents_eq by (simp add: freshConfig_def ex_time)
qed

lemma ex_two_rooms:
  "configCache twoRooms ''a'' = Some (freshConfig\<lparr>RoomId := ''a''\<rparr>)"
  "configCache twoRooms ''a-b'' = Some (freshConfig\<lparr>RoomId := ''a-b''\<rparr>)"
  "configCache notifiedTwoRooms ''a'' = Some (freshConfig\<lparr>RoomId := ''a''\<rparr>)"
  "configCache notifiedTwoRooms ''a-b'' = Some (freshConfig\<lparr>RoomId := ''a-b''\<rparr>)"
  by (simp_all add: twoRooms_def notifiedTwoRooms_def SetKV_def)

lemma ex_chat_run:
  assumes c: "configCache w r = Some (freshConfig\<lparr>RoomId := r'\<rparr>)"
  shows "handleEvt exEnv w (chat r u) exNow =
           (if ShouldSuppress w exNow u r then Inr (w, [])
            else Inr (SetKV (SetKV w exNow (getUserSpamKey r u) (TimeString exEnv exNow) (Hour * 2))
                        exNow (getRoomSpamKey r) (TimeString exEnv exNow) (Minute * 10),
                      [Reply (Plain ''Daily standup''),
                       SetKVCall (getUserSpamKey r u) (TimeString exEnv exNow) (Hour * 2),
                       SetKVCall (getRoomSpamKey r) (TimeString exEnv exNow) (Minute * 10)]))"
proof -
  have r: "EvtRoomId (chat r u) = r" "EvtUserId (chat r u) = u" by (simp_all add: chat_def)
  have c': "configCache w (EvtRoomId (chat r u)) = Some (freshConfig\<lparr>RoomId := r'\<rparr>)"
    using c by (simp add: r)
  have m: "notifyMsg standup = Plain ''Daily standup''"
    by (simp add: notifyMsg_def standup_def)
  have au: "Autoreply (freshConfig\<lparr>RoomId := r'\<rparr>)" by (simp add: freshConfig_def)
  show ?thesis
    using handleEvt_chat [OF ex_chat ex_fresh_room [OF c']] c
    by (simp add: r autoreplyLoop_find ex_active au m world_upd_same)
qed

subsection \<open>Suppression and the order of the checks\<close>

text \<open>
  C1, as the code has it. When the user or the room is suppressed, \<open>handleEvt\<close>
  announces no event and writes no spam key. The two lazy checks are not skipped:
  they come before the test of the spam keys, so the preferences are reloaded
  exactly when the configuration is stale and the events are fetched exactly when
  the event cache is stale, and a failed fetch is reported in a reply. No other
  reply is sent, so no configuration error is reported. With both caches fresh the
  run does nothing at all. The second half gives the whole run: the preference
  reads of a stale configuration, then for stale events the fetch, followed by the
  reply with the fetch error when it fails and by the storing of the new list when
  it succeeds.
\<close>

theorem suppressed_sends_nothing_new:
  assumes act: "chatActivity evt"
    and c: "configCache w (EvtRoomId evt) = Some c"
    and sup: "ShouldSuppress w now (EvtUserId evt) (EvtRoomId evt)"
  shows "(\<exists>w' effs. handleEvt env w evt now = Inr (w', effs)
        \<and> kv w' = kv w
        \<and> \<not> list_ex isSetKV effs \<and> \<not> list_ex isNotify effs
        \<and> (\<forall>m. Reply m \<in> set effs \<longrightarrow>
              (\<exists>cid err. getEvents env cid now = Inl err \<and> GetEventsCall cid now \<in> set effs
                 \<and> Reply m = fetchErrorReply err))
        \<and> (list_ex isGetPref effs \<longleftrightarrow> 10 * Minute < now - configTs c)
        \<and> (list_ex isGetEvents effs \<longleftrightarrow> 66 * Minute < now - calTs c)
        \<and> (\<not> 10 * Minute < now - configTs c \<and> \<not> 66 * Minute < now - calTs c \<longrightarrow>
              w' = w \<and> effs = []))
   \<and> handleEvt env w evt now =
     (let c1 = (if 10 * Minute < now - configTs c then fst (LoadFromPrefs env now c) else c);
          effs1 = (if 10 * Minute < now - configTs c then fst (snd (LoadFromPrefs env now c))
                   else [])
      in if 66 * Minute < now - calTs c
         then (case getEvents env (CalendarId c1) now of
                 Inl err \<Rightarrow>
                   Inr (w\<lparr>configCache := (configCache w)(EvtRoomId evt \<mapsto> c1)\<rparr>,
                        effs1 @ [GetEventsCall (CalendarId c1) now, fetchErrorReply err])
               | Inr evts \<Rightarrow>
                   Inr (w\<lparr>configCache :=
                            (configCache w)(EvtRoomId evt \<mapsto> c1\<lparr>calTs := now, CalEvents := evts\<rparr>)\<rparr>,
                        effs1 @ [GetEventsCall (CalendarId c1) now]))
         else Inr (w\<lparr>configCache := (configCache w)(EvtRoomId evt \<mapsto> c1)\<rparr>, effs1))"
  by (rule conjI [OF handleEvt_suppressed_props [OF act c sup]
        handleEvt_suppressed_run [OF act c sup]])

text \<open>
  C1 as stated asks for no reload, no fetch and no fetch error under suppression.
  In a silenced room with expired caches and an unreachable calendar, the run
  reads the preferences, calls \<open>getEvents\<close> and replies with the fetch error.
\<close>

theorem suppressed_still_fetches_counterexample:
  "ShouldSuppress silencedExpiredWorld exNow ''ann'' ''ops''
   \<and> handleEvt downEnv silencedExpiredWorld (chat ''ops'' ''ann'') exNow =
       Inr (silencedExpiredWorld,
            [GetPrefCall ''ops'' ''calendar-id'', GetEventsCall ''cal-1'' exNow,
             Reply (Fmt ''Error while getting calendar data: %s'' [E (Plain ''calendar unreachable'')])])"
proof -
  let ?evt = "chat ''ops'' ''ann''"
  let ?c = "expireCaches freshConfig"
  have r: "EvtRoomId ?evt = ''ops''" by (simp add: chat_def)
  have c: "configCache silencedExpiredWorld (EvtRoomId ?evt) = Some ?c"
    by (simp add: r silencedExpiredWorld_def)
  have g: "getCachedConfig downEnv silencedExpiredWorld (EvtRoomId ?evt) exNow =
             Inr (silencedExpiredWorld, ?c, [GetPrefCall ''ops'' ''calendar-id''])"
    unfolding getCachedConfig_Some [OF c]
    using c by (simp add: ex_reload_down ex_expired_fields ex_time world_upd_same)
  have e: "getCachedCalEvents downEnv exNow ?c =
             (?c, [GetEventsCall ''cal-1'' exNow], Inl (Plain ''calendar unreachable''))"
    unfolding getCachedCalEvents_eq
    by (simp add: ex_expired_fields ex_time downEnv_def)
  have "handleEvt downEnv silencedExpiredWorld ?evt exNow =
       Inr (silencedExpiredWorld,
            [GetPrefCall ''ops'' ''calendar-id'', GetEventsCall ''cal-1'' exNow,
             Reply (Fmt ''Error while getting calendar data: %s'' [E (Plain ''calendar unreachable'')])])"
    using handleEvt_chat [OF ex_chat g e] c
    by (simp add: fetchErrorReply_def world_upd_same)
  then show ?thesis using ex_silenced by blast
qed

theorem suppressed_sends_nothing_new_witness:
  "chatActivity (chat ''ops'' ''ann'')
   \<and> configCache silencedExpiredWorld (EvtRoomId (chat ''ops'' ''ann''))
       = Some (expireCaches freshConfig)
   \<and> ShouldSuppress silencedExpiredWorld exNow (EvtUserId (chat ''ops'' ''ann''))
       (EvtRoomId (chat ''ops'' ''ann''))
   \<and> (\<exists>w' effs. handleEvt exEnv silencedExpiredWorld (chat ''ops'' ''ann'') exNow = Inr (w', effs)
         \<and> kv w' = kv silencedExpiredWorld
         \<and> \<not> list_ex isSetKV effs \<and> \<not> list_ex isNotify effs
         \<and> list_ex isGetPref effs \<and> list_ex isGetEvents effs)
   \<and> handleEvt downEnv silencedExpiredWorld (chat ''ops'' ''ann'') exNow =
       Inr (silencedExpiredWorld,
            [GetPrefCall ''ops'' ''calendar-id'', GetEventsCall ''cal-1'' exNow,
             fetchErrorReply (Plain ''calendar unreachable'')])"
proof -
  let ?evt = "chat ''ops'' ''ann''"
  have a: "chatActivity ?evt" by (rule ex_chat)
  have c: "configCache silencedExpiredWorld (EvtRoomId ?evt) = Some (expireCaches freshConfig)"
    by (simp add: chat_def silencedExpiredWorld_def)
  have s: "ShouldSuppress silencedExpiredWorld exNow (EvtUserId ?evt) (EvtRoomId ?evt)"
    by (simp add: chat_def ex_silenced)
  have st: "10 * Minute < exNow - configTs (expireCaches freshConfig)"
           "66 * Minute < exNow - calTs (expireCaches freshConfig)"
    by (simp_all add: ex_expired_fields ex_time)
  from suppressed_sends_nothing_new [OF a c s, of exEnv, THEN conjunct1] st
  have 1: "\<exists>w' effs. handleEvt exEnv silencedExpiredWorld ?evt exNow = Inr (w', effs)
         \<and> kv w' = kv silencedExpiredWorld
         \<and> \<not> list_ex isSetKV effs \<and> \<not> list_ex isNotify effs
         \<and> list_ex isGetPref effs \<and> list_ex isGetEvents effs"
    by blast
  have f: "getEvents downEnv ''cal-1'' exNow = Inl (Plain ''calendar unreachable'')"
    by (simp add: downEnv_def)
  have u: "silencedExpiredWorld\<lparr>configCache :=
             (configCache silencedExpiredWorld)(EvtRoomId ?evt \<mapsto> expireCaches freshConfig)\<rparr>
           = silencedExpiredWorld"
    using c by (rule world_upd_same)
  from suppressed_sends_nothing_new [OF a c s, of downEnv, THEN conjunct2]
  have 2: "handleEvt downEnv silencedExpiredWorld ?evt exNow =
       Inr (silencedExpiredWorld,
            [GetPrefCall ''ops'' ''calendar-id'', GetEventsCall ''cal-1'' exNow,
             fetchErrorReply (Plain ''calendar unreachable'')])"
    using st by (simp add: Let_def ex_reload_down ex_expired_fields f u)
  show ?thesis using a c s 1 2 by blast
qed

subsection \<open>The lazy reload of the configuration\<close>

text \<open>
  C2, as the code has it. When the configuration of the room is more than ten
  minutes old, \<open>getCachedConfig\<close> runs \<open>LoadFromPrefs\<close> before anything else: its
  preference reads open the run, the first of them for \<open>calendar-id\<close>. The error it
  returns is dropped. The run goes on with the object as the reload left it; its
  replies are the announcement of an event or the report of a failed fetch, and
  the error of the reload is in none of them. The second half gives the whole
  run from that object: the lazy check of the events, the report of a failed
  fetch, the test of the spam keys and the answer to the first active event. The
  error of the reload does not occur in it.
\<close>

theorem stale_config_reloaded_error_dropped:
  assumes act: "chatActivity evt"
    and c: "configCache w (EvtRoomId evt) = Some c"
    and stale: "10 * Minute < now - configTs c"
  shows "(getCachedConfig env w (EvtRoomId evt) now =
           Inr (w\<lparr>configCache := (configCache w)(EvtRoomId evt \<mapsto> fst (LoadFromPrefs env now c))\<rparr>,
                fst (LoadFromPrefs env now c), fst (snd (LoadFromPrefs env now c)))
       \<and> fst (snd (LoadFromPrefs env now c)) \<noteq> []
       \<and> hd (fst (snd (LoadFromPrefs env now c))) = GetPrefCall (RoomId c) ''calendar-id''
       \<and> (\<exists>w' post. handleEvt env w evt now = Inr (w', fst (snd (LoadFromPrefs env now c)) @ post)
             \<and> (\<forall>m. Reply m \<in> set post \<longrightarrow>
                   isNotify (Reply m)
                   \<or> (\<exists>cid err. getEvents env cid now = Inl err \<and> Reply m = fetchErrorReply err))
             \<and> (\<forall>err. snd (snd (LoadFromPrefs env now c)) = Some err \<longrightarrow>
                   Reply err \<notin> set (fst (snd (LoadFromPrefs env now c)) @ post))))
   \<and> handleEvt env w evt now =
     (case getCachedCalEvents env now (fst (LoadFromPrefs env now c)) of
        (c2, effs2, res) \<Rightarrow>
          (case res of
             Inl err \<Rightarrow>
               Inr (w\<lparr>configCache := (configCache w)(EvtRoomId evt \<mapsto> c2)\<rparr>,
                    fst (snd (LoadFromPrefs env now c)) @ effs2 @ [fetchErrorReply err])
           | Inr evs \<Rightarrow>
               if ShouldSuppress w now (EvtUserId evt) (EvtRoomId evt)
               then Inr (w\<lparr>configCache := (configCache w)(EvtRoomId evt \<mapsto> c2)\<rparr>,
                         fst (snd (LoadFromPrefs env now c)) @ effs2)
               else (case find (active now) evs of
                       None \<Rightarrow>
                         Inr (w\<lparr>configCache := (configCache w)(EvtRoomId evt \<mapsto> c2)\<rparr>,
                              fst (snd (LoadFromPrefs env now c)) @ effs2)
                     | Some ev \<Rightarrow>
                         if Autoreply c2
                         then Inr (SetKV
                                     (SetKV (w\<lparr>configCache := (configCache w)(EvtRoomId evt \<mapsto> c2)\<rparr>)
                                        now (getUserSpamKey (EvtRoomId evt) (EvtUserId evt))
                                        (TimeString env now) (Hour * 2))
                                     now (getRoomSpamKey (EvtRoomId evt)) (TimeString env now)
                                     (Minute * 10),
                                   fst (snd (LoadFromPrefs env now c)) @ effs2 @
                                   [Reply (notifyMsg ev),
                                    SetKVCall (getUserSpamKey (EvtRoomId evt) (EvtUserId evt))
                                      (TimeString env now) (Hour * 2),
                                    SetKVCall (getRoomSpamKey (EvtRoomId evt))
                                      (TimeString env now) (Minute * 10)])
                         else Inr (w\<lparr>configCache := (configCache w)(EvtRoomId evt \<mapsto> c2)\<rparr>,
                                   fst (snd (LoadFromPrefs env now c)) @ effs2))))"
  by (rule conjI [OF handleEvt_reload_props [OF act c stale]
        handleEvt_reload_run [OF act c stale]])

text \<open>
  C2 as stated asks for a failed reload to reach the caller as a configuration
  error. With the preference store down and a configuration one hour old,
  \<open>LoadFromPrefs\<close> fails and the run announces the running event all the same.
\<close>

theorem failed_reload_unreported_counterexample:
  "10 * Minute < exNow - configTs oldPrefsConfig
   \<and> snd (snd (LoadFromPrefs downEnv exNow oldPrefsConfig)) =
       Some (Fmt ''Failed to load calendar-id preference for room %q: %s''
               [S ''ops'', E (Plain ''no such preference'')])
   \<and> handleEvt downEnv oldPrefsWorld (chat ''ops'' ''ann'') exNow =
       Inr (SetKV (SetKV oldPrefsWorld exNow ''gcal-spam-ops-ann'' (TimeString downEnv exNow)
                     (Hour * 2))
              exNow ''gcal-spam-ops'' (TimeString downEnv exNow) (Minute * 10),
            [GetPrefCall ''ops'' ''calendar-id'',
             Reply (Plain ''Daily standup''),
             SetKVCall ''gcal-spam-ops-ann'' (TimeString downEnv exNow) (Hour * 2),
             SetKVCall ''gcal-spam-ops'' (TimeString downEnv exNow) (Minute * 10)])"
proof -
  let ?evt = "chat ''ops'' ''ann''"
  have st: "10 * Minute < exNow - configTs oldPrefsConfig"
    by (simp add: ex_oldPrefs_fields ex_time)
  have l: "snd (snd (LoadFromPrefs downEnv exNow oldPrefsConfig)) =
       Some (Fmt ''Failed to load calendar-id preference for room %q: %s''
               [S ''ops'', E (Plain ''no such preference'')])"
    by (simp add: ex_reload_down ex_oldPrefs_fields)
  have r: "EvtRoomId ?evt = ''ops''" "EvtUserId ?evt = ''ann''" by (simp_all add: chat_def)
  have c: "configCache oldPrefsWorld (EvtRoomId ?evt) = Some oldPrefsConfig"
    by (simp add: r oldPrefsWorld_def)
  have g: "getCachedConfig downEnv oldPrefsWorld (EvtRoomId ?evt) exNow =
             Inr (oldPrefsWorld, oldPrefsConfig, [GetPrefCall ''ops'' ''calendar-id''])"
    unfolding getCachedConfig_Some [OF c]
    using c st by (simp add: ex_reload_down ex_oldPrefs_fields world_upd_same)
  have e: "getCachedCalEvents downEnv exNow oldPrefsConfig =
             (oldPrefsConfig, [], Inr [standup, retro])"
    unfolding getCachedCalEvents_eq by (simp add: ex_oldPrefs_fields ex_time)
  have ns: "\<not> ShouldSuppress oldPrefsWorld exNow (EvtUserId ?evt) (EvtRoomId ?evt)"
    by (simp add: ShouldSuppress_def GetKV_def oldPrefsWorld_def)
  have k: "getUserSpamKey ''ops'' ''ann'' = ''gcal-spam-ops-ann''"
          "getRoomSpamKey ''ops'' = ''gcal-spam-ops''"
    by (simp_all add: getUserSpamKey_def getRoomSpamKey_def)
  have m: "notifyMsg standup = Plain ''Daily standup''"
    by (simp add: notifyMsg_def standup_def)
  have "handleEvt downEnv oldPrefsWorld ?evt exNow =
       Inr (SetKV (SetKV oldPrefsWorld exNow ''gcal-spam-ops-ann'' (TimeString downEnv exNow)
                     (Hour * 2))
              exNow ''gcal-spam-ops'' (TimeString downEnv exNow) (Minute * 10),
            [GetPrefCall ''ops'' ''calendar-id'',
             Reply (Plain ''Daily standup''),
             SetKVCall ''gcal-spam-ops-ann'' (TimeString downEnv exNow) (Hour * 2),
             SetKVCall ''gcal-spam-ops'' (TimeString downEnv exNow) (Minute * 10)])"
    using handleEvt_chat [OF ex_chat g e] ns c
    by (simp add: autoreplyLoop_find ex_active ex_oldPrefs_fields m world_upd_same) (simp add: r k)
  then show ?thesis using st l by blast
qed

theorem stale_config_reloaded_error_dropped_witness:
  "chatActivity (chat ''ops'' ''ann'')
   \<and> configCache oldPrefsWorld (EvtRoomId (chat ''ops'' ''ann'')) = Some oldPrefsConfig
   \<and> 10 * Minute < exNow - configTs oldPrefsConfig
   \<and> LoadFromPrefs downEnv exNow oldPrefsConfig =
       (oldPrefsConfig, [GetPrefCall ''ops'' ''calendar-id''],
        Some (Fmt ''Failed to load calendar-id preference for room %q: %s''
                [S ''ops'', E (Plain ''no such preference'')]))
   \<and> getCachedConfig downEnv oldPrefsWorld (EvtRoomId (chat ''ops'' ''ann'')) exNow =
       Inr (oldPrefsWorld, oldPrefsConfig, [GetPrefCall ''ops'' ''calendar-id''])
   \<and> (\<exists>w' post. handleEvt downEnv oldPrefsWorld (chat ''ops'' ''ann'') exNow =
         Inr (w', GetPrefCall ''ops'' ''calendar-id'' # post)
         \<and> Reply (Fmt ''Failed to load calendar-id preference for room %q: %s''
                     [S ''ops'', E (Plain ''no such preference'')])
             \<notin> set (GetPrefCall ''ops'' ''calendar-id'' # post))
   \<and> handleEvt downEnv oldPrefsWorld (chat ''ops'' ''ann'') exNow =
       Inr (SetKV (SetKV oldPrefsWorld exNow ''gcal-spam-ops-ann'' (TimeString downEnv exNow)
                     (Hour * 2))
              exNow ''gcal-spam-ops'' (TimeString downEnv exNow) (Minute * 10),
            [GetPrefCall ''ops'' ''calendar-id'',
             Reply (notifyMsg standup),
             SetKVCall ''gcal-spam-ops-ann'' (TimeString downEnv exNow) (Hour * 2),
             SetKVCall ''gcal-spam-ops'' (TimeString downEnv exNow) (Minute * 10)])"
proof -
  let ?evt = "chat ''ops'' ''ann''"
  have a: "chatActivity ?evt" by (rule ex_chat)
  have r: "EvtRoomId ?evt = ''ops''" "EvtUserId ?evt = ''ann''" by (simp_all add: chat_def)
  have c: "configCache oldPrefsWorld (EvtRoomId ?evt) = Some oldPrefsConfig"
    by (simp add: chat_def oldPrefsWorld_def)
  have st: "10 * Minute < exNow - configTs oldPrefsConfig"
    by (simp add: ex_oldPrefs_fields ex_time)
  have l: "LoadFromPrefs downEnv exNow oldPrefsConfig =
     (oldPrefsConfig, [GetPrefCall ''ops'' ''calendar-id''],
      Some (Fmt ''Failed to load calendar-id preference for room %q: %s''
              [S ''ops'', E (Plain ''no such preference'')]))"
    by (simp add: ex_reload_down ex_oldPrefs_fields)
  have u: "oldPrefsWorld\<lparr>configCache := (configCache oldPrefsWorld)(EvtRoomId ?evt \<mapsto> oldPrefsConfig)\<rparr>
             = oldPrefsWorld"
    using c by (rule world_upd_same)
  note t = stale_config_reloaded_error_dropped
             [OF a c st, of downEnv, THEN conjunct1, unfolded l fst_conv snd_conv u]
  from t have 1: "getCachedConfig downEnv oldPrefsWorld (EvtRoomId ?evt) exNow =
       Inr (oldPrefsWorld, oldPrefsConfig, [GetPrefCall ''ops'' ''calendar-id''])"
    by blast
  from t have 2: "\<exists>w' post. handleEvt downEnv oldPrefsWorld ?evt exNow =
         Inr (w', GetPrefCall ''ops'' ''calendar-id'' # post)
         \<and> Reply (Fmt ''Failed to load calendar-id preference for room %q: %s''
                     [S ''ops'', E (Plain ''no such preference'')])
             \<notin> set (GetPrefCall ''ops'' ''calendar-id'' # post)"
    by auto
  have e: "getCachedCalEvents downEnv exNow oldPrefsConfig =
             (oldPrefsConfig, [], Inr [standup, retro])"
    unfolding getCachedCalEvents_eq by (simp add: ex_oldPrefs_fields ex_time)
  have ns: "\<not> ShouldSuppress oldPrefsWorld exNow (EvtUserId ?evt) (EvtRoomId ?evt)"
    by (simp add: ShouldSuppress_def GetKV_def oldPrefsWorld_def)
  have k: "getUserSpamKey ''ops'' ''ann'' = ''gcal-spam-ops-ann''"
          "getRoomSpamKey ''ops'' = ''gcal-spam-ops''"
    by (simp_all add: getUserSpamKey_def getRoomSpamKey_def)
  note t2 = stale_config_reloaded_error_dropped
             [OF a c st, of downEnv, THEN conjunct2, unfolded l fst_conv snd_conv e u]
  from t2 have 3: "handleEvt downEnv oldPrefsWorld ?evt exNow =
       Inr (SetKV (SetKV oldPrefsWorld exNow ''gcal-spam-ops-ann'' (TimeString downEnv exNow)
                     (Hour * 2))
              exNow ''gcal-spam-ops'' (TimeString downEnv exNow) (Minute * 10),
            [GetPrefCall ''ops'' ''calendar-id'',
             Reply (notifyMsg standup),
             SetKVCall ''gcal-spam-ops-ann'' (TimeString downEnv exNow) (Hour * 2),
             SetKVCall ''gcal-spam-ops'' (TimeString downEnv exNow) (Minute * 10)])"
    using ns by (simp add: ex_active ex_oldPrefs_fields r k u [unfolded r])
  show ?thesis using a c st l 1 2 3 by blast
qed

subsection \<open>Rooms without an entry\<close>

text \<open>
  C3, as the code has it. There is no not-found condition. For a room id without
  an entry in \<open>configCache\<close>, the evaluation of a chat event, every \<open>!gcal\<close>
  subcommand and the refresh panic on a nil pointer dereference. For a room id
  with an entry, the evaluation, every command with a non-empty \<open>argv\<close> and the
  refresh run to their end. \<open>initData\<close> creates the entry of a room.
\<close>

theorem unknown_room_panics_known_room_runs:
  "(configCache w roomId = None \<longrightarrow>
       (chatActivity evt \<and> EvtRoomId evt = roomId \<longrightarrow>
          handleEvt env w evt now = Inl NilPointerDereference)
     \<and> (EvtRoomId evt = roomId \<and> BodyAsArgv evt = ''!gcal'' # sub # rest \<longrightarrow>
          handleCommand env w evt now = Inl NilPointerDereference)
     \<and> updateCachedCalEvents env w roomId now = Inl NilPointerDereference)
   \<and> (configCache w roomId = Some c \<longrightarrow>
       (chatActivity evt \<and> EvtRoomId evt = roomId \<longrightarrow> (\<exists>r. handleEvt env w evt now = Inr r))
     \<and> (EvtRoomId evt = roomId \<and> BodyAsArgv evt \<noteq> [] \<longrightarrow>
          (\<exists>r. handleCommand env w evt now = Inr r))
     \<and> (\<exists>r. updateCachedCalEvents env w roomId now = Inr r))
   \<and> configCache (initData w roomId) roomId = Some (newConfig roomId)"
proof (intro conjI impI)
  assume n: "configCache w roomId = None"
  {
    assume "chatActivity evt \<and> EvtRoomId evt = roomId"
    then show "handleEvt env w evt now = Inl NilPointerDereference"
      using getCachedConfig_None [OF n, of env now]
      by (auto simp: handleEvt_def chatActivity_def Let_def)
  }
  {
    assume "EvtRoomId evt = roomId \<and> BodyAsArgv evt = ''!gcal'' # sub # rest"
    then show "handleCommand env w evt now = Inl NilPointerDereference"
      using getCachedConfig_None [OF n, of env now]
      by (auto simp: handleCommand_def)
  }
  show "updateCachedCalEvents env w roomId now = Inl NilPointerDereference"
    using n by (simp add: updateCachedCalEvents_def)
next
  assume c: "configCache w roomId = Some c"
  {
    assume a: "chatActivity evt \<and> EvtRoomId evt = roomId"
    then have c': "configCache w (EvtRoomId evt) = Some c" using c by simp
    obtain w1 c1 effs1 where g: "getCachedConfig env w (EvtRoomId evt) now = Inr (w1, c1, effs1)"
      using getCachedConfig_Some [OF c', of env now] by (auto split: if_splits)
    obtain c2 effs2 res where e: "getCachedCalEvents env now c1 = (c2, effs2, res)"
      by (cases "getCachedCalEvents env now c1") auto
    from handleEvt_post [OF _ g e] a
    show "\<exists>r. handleEvt env w evt now = Inr r" by blast
  }
  {
    assume "EvtRoomId evt = roomId \<and> BodyAsArgv evt \<noteq> []"
    then show "\<exists>r. handleCommand env w evt now = Inr r"
      using handleCommand_runs [of w evt c env now] c by auto
  }
  show "\<exists>r. updateCachedCalEvents env w roomId now = Inr r"
    using c by (rule updateCachedCalEvents_runs)
next
  show "configCache (initData w roomId) roomId = Some (newConfig roomId)"
    by (simp add: initData_def)
qed

text \<open>
  C3 as stated asks for a not-found result and no fault for an unknown room. With
  an empty \<open>configCache\<close>, a chat event and the commands \<open>status\<close>, \<open>expire\<close> and
  \<open>reload\<close> all panic.
\<close>

theorem unknown_room_panics_counterexample:
  "configCache emptyWorld ''ops'' = None
   \<and> handleEvt exEnv emptyWorld (chat ''ops'' ''ann'') exNow = Inl NilPointerDereference
   \<and> handleCommand exEnv emptyWorld (command ''ops'' ''ann'' [''!gcal'', ''status'']) exNow
       = Inl NilPointerDereference
   \<and> handleCommand exEnv emptyWorld (command ''ops'' ''ann'' [''!gcal'', ''expire'']) exNow
       = Inl NilPointerDereference
   \<and> handleCommand exEnv emptyWorld (command ''ops'' ''ann'' [''!gcal'', ''reload'']) exNow
       = Inl NilPointerDereference"
proof -
  have n: "configCache emptyWorld ''ops'' = None" by (simp add: emptyWorld_def)
  have g: "getCachedConfig exEnv emptyWorld ''ops'' exNow = Inl NilPointerDereference"
    using n by (rule getCachedConfig_None)
  have 1: "handleEvt exEnv emptyWorld (chat ''ops'' ''ann'') exNow = Inl NilPointerDereference"
    using ex_chat [of "''ops''" "''ann''"]
    by (simp add: handleEvt_def chatActivity_def Let_def) (simp add: chat_def g)
  have 2: "\<And>sub. handleCommand exEnv emptyWorld (command ''ops'' ''ann'' [''!gcal'', sub]) exNow
       = Inl NilPointerDereference"
    by (simp add: handleCommand_def command_def g)
  show ?thesis using n 1 2 by blast
qed

theorem unknown_room_panics_known_room_runs_witness:
  "configCache emptyWorld ''ops'' = None
   \<and> configCache (initData emptyWorld ''ops'') ''ops'' = Some (newConfig ''ops'')
   \<and> chatActivity (chat ''ops'' ''ann'') \<and> EvtRoomId (chat ''ops'' ''ann'') = ''ops''
   \<and> handleEvt exEnv emptyWorld (chat ''ops'' ''ann'') exNow = Inl NilPointerDereference
   \<and> updateCachedCalEvents exEnv emptyWorld ''ops'' exNow = Inl NilPointerDereference
   \<and> (\<exists>r. handleEvt exEnv (initData emptyWorld ''ops'') (chat ''ops'' ''ann'') exNow = Inr r)
   \<and> (\<exists>r. updateCachedCalEvents exEnv (initData emptyWorld ''ops'') ''ops'' exNow = Inr r)"
proof -
  let ?evt = "chat ''ops'' ''ann''"
  have n: "configCache emptyWorld ''ops'' = None" by (simp add: emptyWorld_def)
  have a: "chatActivity ?evt" by (rule ex_chat)
  have r: "EvtRoomId ?evt = ''ops''" by (simp add: chat_def)
  note t1 = unknown_room_panics_known_room_runs
    [of emptyWorld "''ops''" ?evt exEnv exNow "''status''" "[]" "newConfig ''ops''"]
  note t2 = unknown_room_panics_known_room_runs
    [of "initData emptyWorld ''ops''" "''ops''" ?evt exEnv exNow "''status''" "[]" "newConfig ''ops''"]
  from t1 have i: "configCache (initData emptyWorld ''ops'') ''ops'' = Some (newConfig ''ops'')"
    by blast
  from t1 n a r have 1: "handleEvt exEnv emptyWorld ?evt exNow = Inl NilPointerDereference"
    by blast
  from t1 n have 2: "updateCachedCalEvents exEnv emptyWorld ''ops'' exNow = Inl NilPointerDereference"
    by blast
  from t2 i a r have 3: "\<exists>r. handleEvt exEnv (initData emptyWorld ''ops'') ?evt exNow = Inr r"
    by blast
  from t2 i have 4: "\<exists>r. updateCachedCalEvents exEnv (initData emptyWorld ''ops'') ''ops'' exNow = Inr r"
    by blast
  show ?thesis using n i a r 1 2 3 4 by blast
qed

subsection \<open>Refreshing the events\<close>

text \<open>
  C4. An event refresh replaces the cached event list and sets \<open>calTs\<close> to \<open>now\<close>
  together, or, when the fetch fails, leaves both as they were. This holds for the
  scheduled refresh (\<open>updateCachedCalEvents\<close>), for the lazy refresh
  (\<open>getCachedCalEvents\<close>), and for the cache as \<open>handleEvt\<close> leaves it: a failed
  refresh never empties the cache and never changes one of the two without the
  other.
\<close>

theorem refresh_all_or_nothing:
  "(configCache w roomId = Some c \<longrightarrow>
      (\<exists>w' effs c'. updateCachedCalEvents env w roomId now = Inr (w', effs)
         \<and> configCache w' roomId = Some c'
         \<and> (case getEvents env (CalendarId c') now of
              Inr evts \<Rightarrow> CalEvents c' = evts \<and> calTs c' = now
            | Inl err \<Rightarrow> CalEvents c' = CalEvents c \<and> calTs c' = calTs c)))
   \<and> (case getCachedCalEvents env now c of
        (c', effs, res) \<Rightarrow>
          if 66 * Minute < now - calTs c then
            (case getEvents env (CalendarId c) now of
               Inr evts \<Rightarrow> CalEvents c' = evts \<and> calTs c' = now \<and> res = Inr evts
             | Inl err \<Rightarrow> CalEvents c' = CalEvents c \<and> calTs c' = calTs c \<and> res = Inl err)
          else c' = c \<and> res = Inr (CalEvents c))
   \<and> (chatActivity evt \<and> configCache w (EvtRoomId evt) = Some c \<longrightarrow>
        (\<exists>w' effs c'. handleEvt env w evt now = Inr (w', effs)
           \<and> configCache w' (EvtRoomId evt) = Some c'
           \<and> ((CalEvents c' = CalEvents c \<and> calTs c' = calTs c)
              \<or> (\<exists>cid evts. 66 * Minute < now - calTs c \<and> getEvents env cid now = Inr evts
                     \<and> GetEventsCall cid now \<in> set effs
                     \<and> CalEvents c' = evts \<and> calTs c' = now))))"
proof (intro conjI impI)
  assume c: "configCache w roomId = Some c"
  show "\<exists>w' effs c'. updateCachedCalEvents env w roomId now = Inr (w', effs)
         \<and> configCache w' roomId = Some c'
         \<and> (case getEvents env (CalendarId c') now of
              Inr evts \<Rightarrow> CalEvents c' = evts \<and> calTs c' = now
            | Inl err \<Rightarrow> CalEvents c' = CalEvents c \<and> calTs c' = calTs c)"
    by (cases "getEvents env (CalendarId (fst (LoadFromPrefs env now c))) now")
       (simp_all add: updateCachedCalEvents_Some [OF c] LoadFromPrefs_keeps)
next
  show "case getCachedCalEvents env now c of
        (c', effs, res) \<Rightarrow>
          if 66 * Minute < now - calTs c then
            (case getEvents env (CalendarId c) now of
               Inr evts \<Rightarrow> CalEvents c' = evts \<and> calTs c' = now \<and> res = Inr evts
             | Inl err \<Rightarrow> CalEvents c' = CalEvents c \<and> calTs c' = calTs c \<and> res = Inl err)
          else c' = c \<and> res = Inr (CalEvents c)"
    by (simp add: getCachedCalEvents_eq split: sum.splits)
next
  assume "chatActivity evt \<and> configCache w (EvtRoomId evt) = Some c"
  then show "\<exists>w' effs c'. handleEvt env w evt now = Inr (w', effs)
           \<and> configCache w' (EvtRoomId evt) = Some c'
           \<and> ((CalEvents c' = CalEvents c \<and> calTs c' = calTs c)
              \<or> (\<exists>cid evts. 66 * Minute < now - calTs c \<and> getEvents env cid now = Inr evts
                     \<and> GetEventsCall cid now \<in> set effs
                     \<and> CalEvents c' = evts \<and> calTs c' = now))"
    using handleEvt_cache_pair by blast
qed

theorem refresh_all_or_nothing_witness:
  "configCache staleWorld ''ops'' = Some staleConfig
   \<and> chatActivity (chat ''ops'' ''ann'')
   \<and> getEvents downEnv ''cal-1'' exNow = Inl (Plain ''calendar unreachable'')
   \<and> (\<exists>w' effs c'. updateCachedCalEvents downEnv staleWorld ''ops'' exNow = Inr (w', effs)
         \<and> configCache w' ''ops'' = Some c'
         \<and> CalEvents c' = [standup, retro] \<and> calTs c' = exNow - 2 * Hour)
   \<and> (\<exists>w' effs c'. handleEvt downEnv staleWorld (chat ''ops'' ''ann'') exNow = Inr (w', effs)
         \<and> configCache w' ''ops'' = Some c'
         \<and> CalEvents c' = [standup, retro] \<and> calTs c' = exNow - 2 * Hour)"
proof -
  have c: "configCache staleWorld ''ops'' = Some staleConfig"
    by (simp add: staleWorld_def)
  have a: "chatActivity (chat ''ops'' ''ann'')" by (rule ex_chat)
  have r: "EvtRoomId (chat ''ops'' ''ann'') = ''ops''" by (simp add: chat_def)
  have f: "\<And>cid. getEvents downEnv cid exNow = Inl (Plain ''calendar unreachable'')"
    by (simp add: downEnv_def)
  have v: "CalEvents staleConfig = [standup, retro]" "calTs staleConfig = exNow - 2 * Hour"
    by (simp_all add: staleConfig_def freshConfig_def)
  note t = refresh_all_or_nothing [of staleWorld "''ops''" staleConfig downEnv exNow "chat ''ops'' ''ann''"]
  from t c have 1: "\<exists>w' effs c'. updateCachedCalEvents downEnv staleWorld ''ops'' exNow = Inr (w', effs)
         \<and> configCache w' ''ops'' = Some c'
         \<and> CalEvents c' = [standup, retro] \<and> calTs c' = exNow - 2 * Hour"
    by (simp add: f v)
  from t c a have 2: "\<exists>w' effs c'. handleEvt downEnv staleWorld (chat ''ops'' ''ann'') exNow = Inr (w', effs)
         \<and> configCache w' ''ops'' = Some c'
         \<and> CalEvents c' = [standup, retro] \<and> calTs c' = exNow - 2 * Hour"
    by (simp add: f v r)
  show ?thesis using c a f 1 2 by blast
qed

subsection \<open>The lazy refresh on the read path\<close>

text \<open>
  C5. When the events of the room were fetched more than 66 minutes before \<open>now\<close>,
  \<open>handleEvt\<close> calls \<open>getEvents\<close> exactly once, after the preference reads of the
  configuration check and before any reply or KV write. When that fetch fails the
  run ends with the reply that reports the fetch error: nothing is announced from
  the stale list, which stays in the cache with its old timestamp.
\<close>

theorem stale_events_fetched_once:
  assumes act: "chatActivity evt"
    and c: "configCache w (EvtRoomId evt) = Some c"
    and stale: "66 * Minute < now - calTs c"
  shows "\<exists>w1 c1 effs1 w' post.
           getCachedConfig env w (EvtRoomId evt) now = Inr (w1, c1, effs1)
         \<and> handleEvt env w evt now = Inr (w', effs1 @ GetEventsCall (CalendarId c1) now # post)
         \<and> list_all isGetPref effs1
         \<and> list_all (\<lambda>e. isReply e \<or> isSetKV e) post
         \<and> length (filter isGetEvents (effs1 @ GetEventsCall (CalendarId c1) now # post)) = 1
         \<and> (case getEvents env (CalendarId c1) now of
              Inl err \<Rightarrow>
                post = [fetchErrorReply err] \<and> kv w' = kv w
                \<and> configCache w' = (configCache w)(EvtRoomId evt \<mapsto> c1)
                \<and> CalEvents c1 = CalEvents c \<and> calTs c1 = calTs c
            | Inr evts \<Rightarrow>
                configCache w' (EvtRoomId evt) = Some (c1\<lparr>calTs := now, CalEvents := evts\<rparr>))"
proof -
  obtain w1 c1 effs1 where g: "getCachedConfig env w (EvtRoomId evt) now = Inr (w1, c1, effs1)"
    using getCachedConfig_Some [OF c, of env now] by (auto split: if_splits)
  have keep: "calTs c1 = calTs c" "CalEvents c1 = CalEvents c"
    using getCachedConfig_Inr(4) [OF g] c by auto
  have kv1: "kv w1 = kv w" by (rule getCachedConfig_Inr(1) [OF g])
  have prefs: "list_all isGetPref effs1" by (rule getCachedConfig_Inr(2) [OF g])
  have cc1: "configCache w1 = (configCache w)(EvtRoomId evt \<mapsto> c1)"
    using g c unfolding getCachedConfig_Some [OF c] by (auto split: if_splits)
  obtain c2 effs2 res where e: "getCachedCalEvents env now c1 = (c2, effs2, res)"
    by (cases "getCachedCalEvents env now c1") auto
  have st1: "66 * Minute < now - calTs c1" using stale keep by simp
  have effs2: "effs2 = [GetEventsCall (CalendarId c1) now]"
    using e st1 unfolding getCachedCalEvents_eq by (auto split: sum.splits)
  obtain w' post where h: "handleEvt env w evt now = Inr (w', effs1 @ effs2 @ post)"
    and p: "list_all (\<lambda>e. isReply e \<or> isSetKV e) post"
    and f: "\<forall>err. res = Inl err \<longrightarrow> post = [fetchErrorReply err]
                 \<and> w' = w1\<lparr>configCache := (configCache w1)(EvtRoomId evt \<mapsto> c2)\<rparr>"
    and cc: "configCache w' = (configCache w1)(EvtRoomId evt \<mapsto> c2)"
    using handleEvt_post [OF act g e] by blast
  have nofetch: "filter isGetEvents post = []"
    using p
  proof (induction post)
    case Nil
    show ?case by simp
  next
    case (Cons x xs)
    then show ?case by (cases x) simp_all
  qed
  have one: "length (filter isGetEvents (effs1 @ GetEventsCall (CalendarId c1) now # post)) = 1"
    using prefs_only_filter(2) [OF prefs] nofetch by simp
  have outcome: "case getEvents env (CalendarId c1) now of
              Inl err \<Rightarrow>
                post = [fetchErrorReply err] \<and> kv w' = kv w
                \<and> configCache w' = (configCache w)(EvtRoomId evt \<mapsto> c1)
                \<and> CalEvents c1 = CalEvents c \<and> calTs c1 = calTs c
            | Inr evts \<Rightarrow>
                configCache w' (EvtRoomId evt) = Some (c1\<lparr>calTs := now, CalEvents := evts\<rparr>)"
  proof (cases "getEvents env (CalendarId c1) now")
    case (Inl err)
    then have "res = Inl err" "c2 = c1"
      using e st1 unfolding getCachedCalEvents_eq by auto
    then show ?thesis using Inl f kv1 cc cc1 keep by simp
  next
    case (Inr evts)
    then have "c2 = c1\<lparr>calTs := now, CalEvents := evts\<rparr>"
      using e st1 unfolding getCachedCalEvents_eq by auto
    then show ?thesis using Inr cc by simp
  qed
  show ?thesis
    using g h p prefs one outcome unfolding effs2 by auto
qed

theorem stale_events_fetched_once_witness:
  "chatActivity (chat ''ops'' ''ann'')
   \<and> configCache staleWorld (EvtRoomId (chat ''ops'' ''ann'')) = Some staleConfig
   \<and> 66 * Minute < exNow - calTs staleConfig
   \<and> getEvents downEnv ''cal-1'' exNow = Inl (Plain ''calendar unreachable'')
   \<and> (\<exists>w'. handleEvt downEnv staleWorld (chat ''ops'' ''ann'') exNow =
         Inr (w', [GetEventsCall ''cal-1'' exNow,
                   fetchErrorReply (Plain ''calendar unreachable'')]))"
proof -
  have a: "chatActivity (chat ''ops'' ''ann'')" by (rule ex_chat)
  have c: "configCache staleWorld (EvtRoomId (chat ''ops'' ''ann'')) = Some staleConfig"
    by (simp add: chat_def staleWorld_def)
  have s: "66 * Minute < exNow - calTs staleConfig"
    by (simp add: staleConfig_def freshConfig_def ex_time)
  have f: "getEvents downEnv ''cal-1'' exNow = Inl (Plain ''calendar unreachable'')"
    by (simp add: downEnv_def)
  have g: "getCachedConfig downEnv staleWorld (EvtRoomId (chat ''ops'' ''ann'')) exNow
             = Inr (staleWorld, staleConfig, [])"
    by (simp add: chat_def ex_stale_config)
  have i: "CalendarId staleConfig = ''cal-1''"
    by (simp add: staleConfig_def freshConfig_def)
  from stale_events_fetched_once [OF a c s, of downEnv]
  have "\<exists>w'. handleEvt downEnv staleWorld (chat ''ops'' ''ann'') exNow =
         Inr (w', [GetEventsCall ''cal-1'' exNow,
                   fetchErrorReply (Plain ''calendar unreachable'')])"
    unfolding g by (auto simp: i f)
  then show ?thesis using a c s f by blast
qed

subsection \<open>The scan for an active event\<close>

text \<open>
  C6. \<open>handleEvt\<close> scans the cached events in stored order and answers the first
  one with \<open>start < now < end\<close>, both strict: an event that starts or ends exactly at
  \<open>now\<close> is passed over, and when no event brackets \<open>now\<close> nothing is sent. One run
  sends at most one reply, for the first active event, also when events overlap.
\<close>

theorem first_active_event_only:
  assumes act: "chatActivity evt"
    and g: "getCachedConfig env w (EvtRoomId evt) now = Inr (w1, c1, effs1)"
    and e: "getCachedCalEvents env now c1 = (c2, effs2, Inr evs)"
    and ns: "\<not> ShouldSuppress w now (EvtUserId evt) (EvtRoomId evt)"
  shows "(\<exists>w'. handleEvt env w evt now =
            Inr (w', effs1 @ effs2 @
              (case find (active now) evs of
                 None \<Rightarrow> []
               | Some e \<Rightarrow>
                   if Autoreply c2
                   then [Reply (notifyMsg e),
                         SetKVCall (getUserSpamKey (EvtRoomId evt) (EvtUserId evt))
                           (TimeString env now) (Hour * 2),
                         SetKVCall (getRoomSpamKey (EvtRoomId evt))
                           (TimeString env now) (Minute * 10)]
                   else [])))
       \<and> (\<forall>w' effs. handleEvt env w evt now = Inr (w', effs) \<longrightarrow> length (filter isReply effs) \<le> 1)
       \<and> (\<forall>(e :: CalEvent) es uk rk w0. Start e = now \<or> End e = now \<longrightarrow>
             autoreplyLoop env now uk rk c2 (e # es) w0 = autoreplyLoop env now uk rk c2 es w0)
       \<and> ((\<forall>e \<in> set evs. now \<le> Start e \<or> End e \<le> now) \<longrightarrow>
             handleEvt env w evt now =
               Inr (w1\<lparr>configCache := (configCache w1)(EvtRoomId evt \<mapsto> c2)\<rparr>, effs1 @ effs2))"
proof (intro conjI allI impI ballI)
  note h = handleEvt_chat [OF act g e]
  show first: "\<exists>w'. handleEvt env w evt now =
            Inr (w', effs1 @ effs2 @
              (case find (active now) evs of
                 None \<Rightarrow> []
               | Some e \<Rightarrow>
                   if Autoreply c2
                   then [Reply (notifyMsg e),
                         SetKVCall (getUserSpamKey (EvtRoomId evt) (EvtUserId evt))
                           (TimeString env now) (Hour * 2),
                         SetKVCall (getRoomSpamKey (EvtRoomId evt))
                           (TimeString env now) (Minute * 10)]
                   else []))"
    using h ns by (simp add: autoreplyLoop_find split: option.splits)
  {
    fix w' effs
    assume r: "handleEvt env w evt now = Inr (w', effs)"
    have r1: "filter isReply effs1 = []"
      using getCachedConfig_Inr(2) [OF g] by (rule prefs_only_filter(1))
    have r2: "filter isReply effs2 = []"
      using getCachedCalEvents_effs [OF e] by auto
    from first r show "length (filter isReply effs) \<le> 1"
      by (auto simp: r1 r2 split: option.splits)
  }
  {
    fix e :: CalEvent and es uk rk w0
    assume "Start e = now \<or> End e = now"
    then have "\<not> (Before (Start e) now \<and> After (End e) now)"
      by (auto simp: Before_def After_def)
    then show "autoreplyLoop env now uk rk c2 (e # es) w0 = autoreplyLoop env now uk rk c2 es w0"
      by auto
  }
  {
    assume none: "\<forall>e \<in> set evs. now \<le> Start e \<or> End e \<le> now"
    have "find (active now) evs = None"
      unfolding find_None_iff using none by (auto simp: active_def)
    then show "handleEvt env w evt now =
               Inr (w1\<lparr>configCache := (configCache w1)(EvtRoomId evt \<mapsto> c2)\<rparr>, effs1 @ effs2)"
      using h ns by (simp add: autoreplyLoop_find)
  }
qed

theorem first_active_event_only_witness:
  "chatActivity (chat ''ops'' ''ann'')
   \<and> getCachedConfig exEnv freshWorld (EvtRoomId (chat ''ops'' ''ann'')) exNow
       = Inr (freshWorld, freshConfig, [])
   \<and> getCachedCalEvents exEnv exNow freshConfig = (freshConfig, [], Inr [standup, retro])
   \<and> \<not> ShouldSuppress freshWorld exNow (EvtUserId (chat ''ops'' ''ann''))
         (EvtRoomId (chat ''ops'' ''ann''))
   \<and> active exNow standup \<and> active exNow retro
   \<and> (\<exists>w'. handleEvt exEnv freshWorld (chat ''ops'' ''ann'') exNow =
         Inr (w', [Reply (Plain ''Daily standup''),
                   SetKVCall ''gcal-spam-ops-ann'' (TimeString exEnv exNow) (Hour * 2),
                   SetKVCall ''gcal-spam-ops'' (TimeString exEnv exNow) (Minute * 10)]))"
proof -
  have a: "chatActivity (chat ''ops'' ''ann'')" by (rule ex_chat)
  have g: "getCachedConfig exEnv freshWorld (EvtRoomId (chat ''ops'' ''ann'')) exNow
       = Inr (freshWorld, freshConfig, [])"
    by (simp add: chat_def ex_fresh_config)
  have e: "getCachedCalEvents exEnv exNow freshConfig = (freshConfig, [], Inr [standup, retro])"
    by (rule ex_fresh_events)
  have n: "\<not> ShouldSuppress freshWorld exNow (EvtUserId (chat ''ops'' ''ann''))
         (EvtRoomId (chat ''ops'' ''ann''))"
    by (rule ex_not_suppressed)
  have s: "active exNow standup" "active exNow retro"
    by (simp_all add: active_def standup_def retro_def ex_time)
  have f: "find (active exNow) [standup, retro] = Some standup"
    using s by simp
  have m: "notifyMsg standup = Plain ''Daily standup''"
    by (simp add: notifyMsg_def standup_def)
  have k: "getUserSpamKey ''ops'' ''ann'' = ''gcal-spam-ops-ann''"
          "getRoomSpamKey ''ops'' = ''gcal-spam-ops''"
    by (simp_all add: getUserSpamKey_def getRoomSpamKey_def)
  have au: "Autoreply freshConfig" by (simp add: freshConfig_def)
  have r: "EvtRoomId (chat ''ops'' ''ann'') = ''ops''" "EvtUserId (chat ''ops'' ''ann'') = ''ann''"
    by (simp_all add: chat_def)
  from first_active_event_only [OF a g e n, THEN conjunct1]
  have "\<exists>w'. handleEvt exEnv freshWorld (chat ''ops'' ''ann'') exNow =
         Inr (w', [Reply (Plain ''Daily standup''),
                   SetKVCall ''gcal-spam-ops-ann'' (TimeString exEnv exNow) (Hour * 2),
                   SetKVCall ''gcal-spam-ops'' (TimeString exEnv exNow) (Minute * 10)])"
    by (simp add: s m au k r)
  then show ?thesis using a g e n s by blast
qed

subsection \<open>Suppression by either key, and silence\<close>

text \<open>
  C7. The test of \<open>handleEvt\<close> on the two values it read holds exactly when the
  user-scoped key or the room-scoped key exists in the KV store with a non-empty
  value, whichever it is. \<open>!gcal silence d\<close> writes one key, the room-scoped one,
  with the value \<open>-\<close> and the TTL \<open>d\<close>; from then until \<open>d\<close> has passed the test
  holds for every user of the room, whatever the store held before. A run of
  \<open>handleEvt\<close> whose events resolve goes by these two keys: when either exists
  with a non-empty value it sends nothing and writes nothing, and otherwise it
  answers the first active event of a room with autoreply and writes both keys.
\<close>

theorem either_key_suppresses_and_silence:
  "(ShouldSuppress w now userId roomId \<longleftrightarrow>
      keyActive w now (getUserSpamKey roomId userId) \<or> keyActive w now (getRoomSpamKey roomId))
   \<and> (BodyAsArgv evt = [''!gcal'', ''silence'', arg] \<and> ParseDuration env arg = Inr d
        \<and> configCache w (EvtRoomId evt) = Some c \<longrightarrow>
       (\<exists>w' effs. handleCommand env w evt now = Inr (w', effs)
          \<and> kv w' = (kv w)(getRoomSpamKey (EvtRoomId evt) \<mapsto> (''-'', now + d))
          \<and> filter isSetKV effs = [SetKVCall (getRoomSpamKey (EvtRoomId evt)) ''-'' d]
          \<and> (\<forall>user t. now \<le> t \<and> t < now + d \<longrightarrow> ShouldSuppress w' t user (EvtRoomId evt))))
   \<and> (chatActivity msg \<and> getCachedConfig env w (EvtRoomId msg) now = Inr (w1, c1, effs1)
        \<and> getCachedCalEvents env now c1 = (c2, effs2, Inr evs) \<longrightarrow>
       handleEvt env w msg now =
         (if keyActive w now (getUserSpamKey (EvtRoomId msg) (EvtUserId msg))
             \<or> keyActive w now (getRoomSpamKey (EvtRoomId msg))
          then Inr (w1\<lparr>configCache := (configCache w1)(EvtRoomId msg \<mapsto> c2)\<rparr>, effs1 @ effs2)
          else (case find (active now) evs of
                  None \<Rightarrow>
                    Inr (w1\<lparr>configCache := (configCache w1)(EvtRoomId msg \<mapsto> c2)\<rparr>,
                         effs1 @ effs2)
                | Some ev \<Rightarrow>
                    if Autoreply c2
                    then Inr (SetKV
                                (SetKV (w1\<lparr>configCache := (configCache w1)(EvtRoomId msg \<mapsto> c2)\<rparr>)
                                   now (getUserSpamKey (EvtRoomId msg) (EvtUserId msg))
                                   (TimeString env now) (Hour * 2))
                                now (getRoomSpamKey (EvtRoomId msg)) (TimeString env now)
                                (Minute * 10),
                              effs1 @ effs2 @
                              [Reply (notifyMsg ev),
                               SetKVCall (getUserSpamKey (EvtRoomId msg) (EvtUserId msg))
                                 (TimeString env now) (Hour * 2),
                               SetKVCall (getRoomSpamKey (EvtRoomId msg))
                                 (TimeString env now) (Minute * 10)])
                    else Inr (w1\<lparr>configCache := (configCache w1)(EvtRoomId msg \<mapsto> c2)\<rparr>,
                              effs1 @ effs2))))"
proof (intro conjI impI)
  note p = silence_props [of w now userId roomId evt arg env d c]
  show "ShouldSuppress w now userId roomId \<longleftrightarrow>
      keyActive w now (getUserSpamKey roomId userId) \<or> keyActive w now (getRoomSpamKey roomId)"
    using p by (rule conjunct1)
  show "\<exists>w' effs. handleCommand env w evt now = Inr (w', effs)
          \<and> kv w' = (kv w)(getRoomSpamKey (EvtRoomId evt) \<mapsto> (''-'', now + d))
          \<and> filter isSetKV effs = [SetKVCall (getRoomSpamKey (EvtRoomId evt)) ''-'' d]
          \<and> (\<forall>user t. now \<le> t \<and> t < now + d \<longrightarrow> ShouldSuppress w' t user (EvtRoomId evt))"
    if "BodyAsArgv evt = [''!gcal'', ''silence'', arg] \<and> ParseDuration env arg = Inr d
        \<and> configCache w (EvtRoomId evt) = Some c"
    using p that by blast
  show "handleEvt env w msg now =
         (if keyActive w now (getUserSpamKey (EvtRoomId msg) (EvtUserId msg))
             \<or> keyActive w now (getRoomSpamKey (EvtRoomId msg))
          then Inr (w1\<lparr>configCache := (configCache w1)(EvtRoomId msg \<mapsto> c2)\<rparr>, effs1 @ effs2)
          else (case find (active now) evs of
                  None \<Rightarrow>
                    Inr (w1\<lparr>configCache := (configCache w1)(EvtRoomId msg \<mapsto> c2)\<rparr>,
                         effs1 @ effs2)
                | Some ev \<Rightarrow>
                    if Autoreply c2
                    then Inr (SetKV
                                (SetKV (w1\<lparr>configCache := (configCache w1)(EvtRoomId msg \<mapsto> c2)\<rparr>)
                                   now (getUserSpamKey (EvtRoomId msg) (EvtUserId msg))
                                   (TimeString env now) (Hour * 2))
                                now (getRoomSpamKey (EvtRoomId msg)) (TimeString env now)
                                (Minute * 10),
                              effs1 @ effs2 @
                              [Reply (notifyMsg ev),
                               SetKVCall (getUserSpamKey (EvtRoomId msg) (EvtUserId msg))
                                 (TimeString env now) (Hour * 2),
                               SetKVCall (getRoomSpamKey (EvtRoomId msg))
                                 (TimeString env now) (Minute * 10)])
                    else Inr (w1\<lparr>configCache := (configCache w1)(EvtRoomId msg \<mapsto> c2)\<rparr>,
                              effs1 @ effs2)))"
    if "chatActivity msg \<and> getCachedConfig env w (EvtRoomId msg) now = Inr (w1, c1, effs1)
        \<and> getCachedCalEvents env now c1 = (c2, effs2, Inr evs)"
  proof -
    from that have a: "chatActivity msg"
      and g: "getCachedConfig env w (EvtRoomId msg) now = Inr (w1, c1, effs1)"
      and e: "getCachedCalEvents env now c1 = (c2, effs2, Inr evs)" by auto
    show ?thesis using handleEvt_chat_find [OF a g e] by simp
  qed
qed

theorem either_key_suppresses_and_silence_witness:
  "BodyAsArgv (command ''ops'' ''ann'' [''!gcal'', ''silence'', ''4h'']) = [''!gcal'', ''silence'', ''4h'']
   \<and> ParseDuration exEnv ''4h'' = Inr (4 * Hour)
   \<and> configCache freshWorld (EvtRoomId (command ''ops'' ''ann'' [''!gcal'', ''silence'', ''4h'']))
       = Some freshConfig
   \<and> exNow \<le> exNow + 3 * Hour \<and> exNow + 3 * Hour < exNow + 4 * Hour
   \<and> \<not> ShouldSuppress freshWorld (exNow + 3 * Hour) ''bob'' ''ops''
   \<and> (\<exists>w' effs. handleCommand exEnv freshWorld
                   (command ''ops'' ''ann'' [''!gcal'', ''silence'', ''4h'']) exNow = Inr (w', effs)
         \<and> kv w' = [''gcal-spam-ops'' \<mapsto> (''-'', exNow + 4 * Hour)]
         \<and> ShouldSuppress w' (exNow + 3 * Hour) ''bob'' ''ops'')
   \<and> chatActivity (chat ''ops'' ''bob'')
   \<and> getCachedConfig exEnv freshWorld (EvtRoomId (chat ''ops'' ''bob'')) exNow
       = Inr (freshWorld, freshConfig, [])
   \<and> getCachedConfig exEnv (SetKV freshWorld exNow ''gcal-spam-ops'' ''-'' (4 * Hour))
         (EvtRoomId (chat ''ops'' ''bob'')) exNow
       = Inr (SetKV freshWorld exNow ''gcal-spam-ops'' ''-'' (4 * Hour), freshConfig, [])
   \<and> getCachedCalEvents exEnv exNow freshConfig = (freshConfig, [], Inr [standup, retro])
   \<and> handleEvt exEnv freshWorld (chat ''ops'' ''bob'') exNow =
       Inr (SetKV (SetKV freshWorld exNow ''gcal-spam-ops-bob'' (TimeString exEnv exNow) (Hour * 2))
              exNow ''gcal-spam-ops'' (TimeString exEnv exNow) (Minute * 10),
            [Reply (notifyMsg standup),
             SetKVCall ''gcal-spam-ops-bob'' (TimeString exEnv exNow) (Hour * 2),
             SetKVCall ''gcal-spam-ops'' (TimeString exEnv exNow) (Minute * 10)])
   \<and> handleEvt exEnv (SetKV freshWorld exNow ''gcal-spam-ops'' ''-'' (4 * Hour))
         (chat ''ops'' ''bob'') exNow =
       Inr (SetKV freshWorld exNow ''gcal-spam-ops'' ''-'' (4 * Hour), [])"
proof -
  let ?cmd = "command ''ops'' ''ann'' [''!gcal'', ''silence'', ''4h'']"
  let ?msg = "chat ''ops'' ''bob''"
  let ?sw = "SetKV freshWorld exNow ''gcal-spam-ops'' ''-'' (4 * Hour)"
  have argv: "BodyAsArgv ?cmd = [''!gcal'', ''silence'', ''4h'']" by (simp add: command_def)
  have d: "ParseDuration exEnv ''4h'' = Inr (4 * Hour)" by (simp add: exEnv_def)
  have r: "EvtRoomId ?cmd = ''ops''" by (simp add: command_def)
  have c: "configCache freshWorld (EvtRoomId ?cmd) = Some freshConfig"
    by (simp add: r freshWorld_def)
  have t: "exNow \<le> exNow + 3 * Hour" "exNow + 3 * Hour < exNow + 4 * Hour"
    by (simp_all add: Hour_def Minute_def Second_def)
  have n: "\<not> ShouldSuppress freshWorld (exNow + 3 * Hour) ''bob'' ''ops''"
    by (rule ex_not_suppressed)
  have k: "kv freshWorld = Map.empty" "getRoomSpamKey ''ops'' = ''gcal-spam-ops''"
    "getUserSpamKey ''ops'' ''bob'' = ''gcal-spam-ops-bob''"
    by (simp_all add: freshWorld_def getRoomSpamKey_def getUserSpamKey_def)
  note inst = either_key_suppresses_and_silence
         [of freshWorld exNow "''bob''" "''ops''" ?cmd "''4h''" exEnv "4 * Hour" freshConfig]
  from inst argv d c
  have "\<exists>w' effs. handleCommand exEnv freshWorld ?cmd exNow = Inr (w', effs)
          \<and> kv w' = (kv freshWorld)(getRoomSpamKey (EvtRoomId ?cmd) \<mapsto> (''-'', exNow + 4 * Hour))
          \<and> (\<forall>user t. exNow \<le> t \<and> t < exNow + 4 * Hour \<longrightarrow>
                ShouldSuppress w' t user (EvtRoomId ?cmd))"
    by blast
  then have 1: "\<exists>w' effs. handleCommand exEnv freshWorld ?cmd exNow = Inr (w', effs)
         \<and> kv w' = [''gcal-spam-ops'' \<mapsto> (''-'', exNow + 4 * Hour)]
         \<and> ShouldSuppress w' (exNow + 3 * Hour) ''bob'' ''ops''"
    unfolding r k using t by blast
  have a: "chatActivity ?msg" by (rule ex_chat)
  have rm: "EvtRoomId ?msg = ''ops''" "EvtUserId ?msg = ''bob''" by (simp_all add: chat_def)
  have g0: "getCachedConfig exEnv freshWorld (EvtRoomId ?msg) exNow
              = Inr (freshWorld, freshConfig, [])"
    by (simp add: rm ex_fresh_config)
  have cs: "configCache ?sw ''ops'' = Some freshConfig"
    by (simp add: SetKV_def freshWorld_def)
  have g1: "getCachedConfig exEnv ?sw (EvtRoomId ?msg) exNow = Inr (?sw, freshConfig, [])"
    using getCachedConfig_Some [OF cs, of exEnv exNow]
    by (simp add: rm freshConfig_def ex_time)
  have e: "getCachedCalEvents exEnv exNow freshConfig = (freshConfig, [], Inr [standup, retro])"
    by (rule ex_fresh_events)
  have au: "Autoreply freshConfig" by (simp add: freshConfig_def)
  have na: "\<not> keyActive freshWorld exNow ''gcal-spam-ops-bob''"
           "\<not> keyActive freshWorld exNow ''gcal-spam-ops''"
    by (simp_all add: keyActive_def freshWorld_def)
  have ka: "keyActive ?sw exNow ''gcal-spam-ops''"
    by (simp add: keyActive_def SetKV_def Hour_def Minute_def Second_def)
  have u0: "freshWorld\<lparr>configCache := (configCache freshWorld)(''ops'' \<mapsto> freshConfig)\<rparr>
              = freshWorld"
    by (rule world_upd_same) (simp add: freshWorld_def)
  have u1: "?sw\<lparr>configCache := (configCache ?sw)(''ops'' \<mapsto> freshConfig)\<rparr> = ?sw"
    using cs by (rule world_upd_same)
  note run0 = either_key_suppresses_and_silence
         [of freshWorld exNow "''bob''" "''ops''" ?cmd "''4h''" exEnv "4 * Hour" freshConfig
             ?msg freshWorld freshConfig "[]" freshConfig "[]" "[standup, retro]",
          THEN conjunct2, THEN conjunct2, THEN mp, OF conjI [OF a conjI [OF g0 e]]]
  have 2: "handleEvt exEnv freshWorld ?msg exNow =
       Inr (SetKV (SetKV freshWorld exNow ''gcal-spam-ops-bob'' (TimeString exEnv exNow) (Hour * 2))
              exNow ''gcal-spam-ops'' (TimeString exEnv exNow) (Minute * 10),
            [Reply (notifyMsg standup),
             SetKVCall ''gcal-spam-ops-bob'' (TimeString exEnv exNow) (Hour * 2),
             SetKVCall ''gcal-spam-ops'' (TimeString exEnv exNow) (Minute * 10)])"
    unfolding run0 by (simp add: rm k na ex_active au u0)
  note run1 = either_key_suppresses_and_silence
         [of ?sw exNow "''bob''" "''ops''" ?cmd "''4h''" exEnv "4 * Hour" freshConfig
             ?msg ?sw freshConfig "[]" freshConfig "[]" "[standup, retro]",
          THEN conjunct2, THEN conjunct2, THEN mp, OF conjI [OF a conjI [OF g1 e]]]
  have 3: "handleEvt exEnv ?sw ?msg exNow = Inr (?sw, [])"
    unfolding run1 by (simp add: rm k ka u1)
  show ?thesis using argv d c t n 1 a g0 g1 e 2 3 by blast
qed

subsection \<open>The record of a notification\<close>

text \<open>
  C8. When a run of \<open>handleEvt\<close> announces an event, it writes the user-scoped key
  with a TTL of two hours and the room-scoped key with a TTL of ten minutes, both
  with the value \<open>now.String()\<close>, and these are its only KV writes. That string is
  not empty, so the test of the spam keys holds right afterwards: for this user
  during two hours, for every user of the room during ten minutes.
\<close>

theorem notified_writes_both_keys:
  assumes act: "chatActivity evt"
    and run: "handleEvt env w evt now = Inr (w', effs)"
    and notify: "list_ex isNotify effs"
    and ts: "TimeString env now \<noteq> ''''"
  shows "kv w' (getUserSpamKey (EvtRoomId evt) (EvtUserId evt))
           = Some (TimeString env now, now + Hour * 2)
       \<and> kv w' (getRoomSpamKey (EvtRoomId evt)) = Some (TimeString env now, now + Minute * 10)
       \<and> filter isSetKV effs =
           [SetKVCall (getUserSpamKey (EvtRoomId evt) (EvtUserId evt)) (TimeString env now) (Hour * 2),
            SetKVCall (getRoomSpamKey (EvtRoomId evt)) (TimeString env now) (Minute * 10)]
       \<and> ShouldSuppress w' now (EvtUserId evt) (EvtRoomId evt)
       \<and> (\<forall>t. now \<le> t \<and> t < now + Hour * 2 \<longrightarrow>
             ShouldSuppress w' t (EvtUserId evt) (EvtRoomId evt))
       \<and> (\<forall>t user. now \<le> t \<and> t < now + Minute * 10 \<longrightarrow>
             ShouldSuppress w' t user (EvtRoomId evt))"
proof -
  let ?uk = "getUserSpamKey (EvtRoomId evt) (EvtUserId evt)"
  let ?rk = "getRoomSpamKey (EvtRoomId evt)"
  obtain w1 c1 effs1 where g: "getCachedConfig env w (EvtRoomId evt) now = Inr (w1, c1, effs1)"
    using handleEvt_Inr_config [OF act run] by blast
  obtain c2 effs2 res where e: "getCachedCalEvents env now c1 = (c2, effs2, res)"
    by (cases "getCachedCalEvents env now c1") auto
  define w2 where "w2 = w1\<lparr>configCache := (configCache w1)(EvtRoomId evt \<mapsto> c2)\<rparr>"
  note h = handleEvt_chat [OF act g e, folded w2_def]
  have p1: "list_all isGetPref effs1" by (rule getCachedConfig_Inr(2) [OF g])
  have n1: "\<not> list_ex isNotify effs1" "filter isSetKV effs1 = []"
    using prefs_only(1,2) [OF p1] by (auto simp: list_ex_iff filter_empty_conv)
  have n2: "\<not> list_ex isNotify effs2" "filter isSetKV effs2 = []"
    using getCachedCalEvents_effs [OF e] by auto
  have n12: "\<not> list_ex isNotify (effs1 @ effs2)"
    using n1 n2 by (auto simp: list_ex_iff)
  have loop: "\<exists>ev evs. res = Inr evs \<and> find (active now) evs = Some ev \<and> Autoreply c2
                \<and> \<not> ShouldSuppress w now (EvtUserId evt) (EvtRoomId evt)"
  proof (cases res)
    case (Inl err)
    then have "effs = effs1 @ effs2 @ [fetchErrorReply err]" using h run by simp
    then have False using notify n12 by (simp add: list_ex_iff fetchErrorReply_kind)
    then show ?thesis ..
  next
    case (Inr evs)
    show ?thesis
    proof (cases "ShouldSuppress w now (EvtUserId evt) (EvtRoomId evt)")
      case True
      then have "effs = effs1 @ effs2" using h run Inr by simp
      then have False using notify n12 by simp
      then show ?thesis ..
    next
      case False
      show ?thesis
      proof (cases "find (active now) evs")
        case None
        then have "effs = effs1 @ effs2" using h run Inr False by (simp add: autoreplyLoop_find)
        then have False using notify n12 by simp
        then show ?thesis ..
      next
        case (Some ev)
        show ?thesis
        proof (cases "Autoreply c2")
          case True
          then show ?thesis using Inr Some False by blast
        next
          case no: False
          then have "effs = effs1 @ effs2"
            using h run Inr False Some by (simp add: autoreplyLoop_find)
          then have False using notify n12 by simp
          then show ?thesis ..
        qed
      qed
    qed
  qed
  then obtain ev evs where res: "res = Inr evs" and f: "find (active now) evs = Some ev"
    and au: "Autoreply c2" and ns: "\<not> ShouldSuppress w now (EvtUserId evt) (EvtRoomId evt)"
    by blast
  have w': "w' = SetKV (SetKV w2 now ?uk (TimeString env now) (Hour * 2)) now ?rk
                   (TimeString env now) (Minute * 10)"
    and effs: "effs = effs1 @ effs2 @
                 [Reply (notifyMsg ev), SetKVCall ?uk (TimeString env now) (Hour * 2),
                  SetKVCall ?rk (TimeString env now) (Minute * 10)]"
    using h run res f au ns by (simp_all add: autoreplyLoop_find)
  have k1: "kv w' ?uk = Some (TimeString env now, now + Hour * 2)"
    by (simp add: w' SetKV_def spam_keys_differ)
  have k2: "kv w' ?rk = Some (TimeString env now, now + Minute * 10)"
    by (simp add: w' SetKV_def)
  have writes: "filter isSetKV effs =
           [SetKVCall ?uk (TimeString env now) (Hour * 2),
            SetKVCall ?rk (TimeString env now) (Minute * 10)]"
    by (simp add: effs n1 n2)
  have user: "\<And>t. t < now + Hour * 2 \<Longrightarrow> keyActive w' t ?uk"
    using k1 ts by (simp add: keyActive_def)
  have room: "\<And>t. t < now + Minute * 10 \<Longrightarrow> keyActive w' t ?rk"
    using k2 ts by (simp add: keyActive_def)
  have pos: "now < now + Hour * 2" by (simp add: Hour_def Minute_def Second_def)
  have s0: "ShouldSuppress w' now (EvtUserId evt) (EvtRoomId evt)"
    using user [OF pos] by (simp add: ShouldSuppress_keyActive)
  have s1: "\<forall>t. now \<le> t \<and> t < now + Hour * 2 \<longrightarrow>
             ShouldSuppress w' t (EvtUserId evt) (EvtRoomId evt)"
    using user by (simp add: ShouldSuppress_keyActive)
  have s2: "\<forall>t user. now \<le> t \<and> t < now + Minute * 10 \<longrightarrow>
             ShouldSuppress w' t user (EvtRoomId evt)"
    using room by (simp add: ShouldSuppress_keyActive)
  show ?thesis using k1 k2 writes s0 s1 s2 by blast
qed

theorem notified_writes_both_keys_witness:
  "chatActivity (chat ''ops'' ''ann'')
   \<and> handleEvt exEnv freshWorld (chat ''ops'' ''ann'') exNow =
       Inr (SetKV (SetKV freshWorld exNow ''gcal-spam-ops-ann'' (TimeString exEnv exNow) (Hour * 2))
              exNow ''gcal-spam-ops'' (TimeString exEnv exNow) (Minute * 10),
            [Reply (Plain ''Daily standup''),
             SetKVCall ''gcal-spam-ops-ann'' (TimeString exEnv exNow) (Hour * 2),
             SetKVCall ''gcal-spam-ops'' (TimeString exEnv exNow) (Minute * 10)])
   \<and> list_ex isNotify
        [Reply (Plain ''Daily standup''),
         SetKVCall ''gcal-spam-ops-ann'' (TimeString exEnv exNow) (Hour * 2),
         SetKVCall ''gcal-spam-ops'' (TimeString exEnv exNow) (Minute * 10)]
   \<and> TimeString exEnv exNow \<noteq> ''''
   \<and> \<not> ShouldSuppress freshWorld exNow ''ann'' ''ops''
   \<and> ShouldSuppress
        (SetKV (SetKV freshWorld exNow ''gcal-spam-ops-ann'' (TimeString exEnv exNow) (Hour * 2))
           exNow ''gcal-spam-ops'' (TimeString exEnv exNow) (Minute * 10))
        exNow ''ann'' ''ops''"
proof -
  let ?evt = "chat ''ops'' ''ann''"
  let ?w' = "SetKV (SetKV freshWorld exNow ''gcal-spam-ops-ann'' (TimeString exEnv exNow) (Hour * 2))
              exNow ''gcal-spam-ops'' (TimeString exEnv exNow) (Minute * 10)"
  let ?effs = "[Reply (Plain ''Daily standup''),
             SetKVCall ''gcal-spam-ops-ann'' (TimeString exEnv exNow) (Hour * 2),
             SetKVCall ''gcal-spam-ops'' (TimeString exEnv exNow) (Minute * 10)]"
  have a: "chatActivity ?evt" by (rule ex_chat)
  have r: "EvtRoomId ?evt = ''ops''" "EvtUserId ?evt = ''ann''" by (simp_all add: chat_def)
  have c: "configCache freshWorld (EvtRoomId ?evt) = Some freshConfig"
    by (simp add: r freshWorld_def)
  have g: "getCachedConfig exEnv freshWorld (EvtRoomId ?evt) exNow = Inr (freshWorld, freshConfig, [])"
    by (simp add: r ex_fresh_config)
  have k: "getUserSpamKey ''ops'' ''ann'' = ''gcal-spam-ops-ann''"
          "getRoomSpamKey ''ops'' = ''gcal-spam-ops''"
    by (simp_all add: getUserSpamKey_def getRoomSpamKey_def)
  have m: "notifyMsg standup = Plain ''Daily standup''"
    by (simp add: notifyMsg_def standup_def)
  have au: "Autoreply freshConfig" by (simp add: freshConfig_def)
  have run: "handleEvt exEnv freshWorld ?evt exNow = Inr (?w', ?effs)"
    using handleEvt_chat [OF a g ex_fresh_events] ex_not_suppressed [of exNow "''ann''" "''ops''"] c
    by (simp add: autoreplyLoop_find ex_active au m world_upd_same r k)
  have n: "list_ex isNotify ?effs" by simp
  have ts: "TimeString exEnv exNow \<noteq> ''''" by (simp add: exEnv_def)
  have ns: "\<not> ShouldSuppress freshWorld exNow ''ann'' ''ops''" by (rule ex_not_suppressed)
  from notified_writes_both_keys [OF a run n ts]
  have "ShouldSuppress ?w' exNow ''ann'' ''ops''"
    unfolding r by blast
  then show ?thesis using a run n ts ns by blast
qed

subsection \<open>Expiring the caches\<close>

text \<open>
  C9. \<open>expireCaches\<close> sets \<open>configTs\<close> and \<open>calTs\<close> to the zero instant and changes
  nothing else: putting the two old timestamps back gives the old object. A chat
  event evaluated next, at any clock reading more than 66 minutes after the zero
  instant, reloads the preferences and then fetches the events, however fresh
  both caches were before. \<open>!gcal expire\<close> applies \<open>expireCaches\<close> to the object of
  the room and replies.
\<close>

theorem expire_forces_reload_and_refresh:
  "(expireCaches c)\<lparr>configTs := configTs c, calTs := calTs c\<rparr> = c
   \<and> configTs (expireCaches c) = 0 \<and> calTs (expireCaches c) = 0
   \<and> (chatActivity evt \<and> configCache w (EvtRoomId evt) = Some (expireCaches c)
        \<and> 66 * Minute < now \<longrightarrow>
        (\<exists>w' post. handleEvt env w evt now =
            Inr (w', fst (snd (LoadFromPrefs env now (expireCaches c)))
                     @ GetEventsCall (CalendarId (fst (LoadFromPrefs env now (expireCaches c)))) now
                     # post))
        \<and> fst (snd (LoadFromPrefs env now (expireCaches c))) \<noteq> []
        \<and> hd (fst (snd (LoadFromPrefs env now (expireCaches c))))
            = GetPrefCall (RoomId c) ''calendar-id'')
   \<and> (BodyAsArgv evt = [''!gcal'', ''expire''] \<and> configCache w (EvtRoomId evt) = Some c \<longrightarrow>
        (\<exists>w1 c1 effs1. getCachedConfig env w (EvtRoomId evt) now = Inr (w1, c1, effs1)
           \<and> handleCommand env w evt now =
               Inr (w1\<lparr>configCache := (configCache w1)(EvtRoomId evt \<mapsto> expireCaches c1)\<rparr>,
                    effs1 @ [Reply (Fmt ''config & calendar caches expired'' [])])))"
proof (intro conjI impI)
  show "(expireCaches c)\<lparr>configTs := configTs c, calTs := calTs c\<rparr> = c"
    by (simp add: expireCaches_def)
  show "configTs (expireCaches c) = 0" by (simp add: expireCaches_def)
  show "calTs (expireCaches c) = 0" by (simp add: expireCaches_def)
next
  assume h: "chatActivity evt \<and> configCache w (EvtRoomId evt) = Some (expireCaches c)
        \<and> 66 * Minute < now"
  then have act: "chatActivity evt"
    and c: "configCache w (EvtRoomId evt) = Some (expireCaches c)"
    and late: "66 * Minute < now" by auto
  let ?c1 = "fst (LoadFromPrefs env now (expireCaches c))"
  let ?effs1 = "fst (snd (LoadFromPrefs env now (expireCaches c)))"
  have "10 * Minute < now - configTs (expireCaches c)"
    using late by (simp add: expireCaches_def Minute_def Second_def)
  then have g: "getCachedConfig env w (EvtRoomId evt) now =
      Inr (w\<lparr>configCache := (configCache w)(EvtRoomId evt \<mapsto> ?c1)\<rparr>, ?c1, ?effs1)"
    using getCachedConfig_Some [OF c, of env now] by simp
  obtain c2 effs2 res where e: "getCachedCalEvents env now ?c1 = (c2, effs2, res)"
    by (cases "getCachedCalEvents env now ?c1") auto
  have "66 * Minute < now - calTs ?c1"
    using late by (simp add: LoadFromPrefs_keeps expireCaches_def)
  then have effs2: "effs2 = [GetEventsCall (CalendarId ?c1) now]"
    using e unfolding getCachedCalEvents_eq by (auto split: sum.splits)
  from handleEvt_post [OF act g e]
  show "\<exists>w' post. handleEvt env w evt now =
            Inr (w', ?effs1 @ GetEventsCall (CalendarId ?c1) now # post)"
    unfolding effs2 by auto
  show "?effs1 \<noteq> []" by (rule LoadFromPrefs_effs(3))
  show "hd ?effs1 = GetPrefCall (RoomId c) ''calendar-id''"
    by (simp add: LoadFromPrefs_effs(2) expireCaches_keeps)
next
  assume h: "BodyAsArgv evt = [''!gcal'', ''expire''] \<and> configCache w (EvtRoomId evt) = Some c"
  then have argv: "BodyAsArgv evt = [''!gcal'', ''expire'']"
    and c: "configCache w (EvtRoomId evt) = Some c" by auto
  obtain w1 c1 effs1 where g: "getCachedConfig env w (EvtRoomId evt) now = Inr (w1, c1, effs1)"
    using getCachedConfig_Some [OF c, of env now] by (auto split: if_splits)
  have "handleCommand env w evt now =
               Inr (w1\<lparr>configCache := (configCache w1)(EvtRoomId evt \<mapsto> expireCaches c1)\<rparr>,
                    effs1 @ [Reply (Fmt ''config & calendar caches expired'' [])])"
    by (simp add: handleCommand_def argv g)
  then show "\<exists>w1 c1 effs1. getCachedConfig env w (EvtRoomId evt) now = Inr (w1, c1, effs1)
           \<and> handleCommand env w evt now =
               Inr (w1\<lparr>configCache := (configCache w1)(EvtRoomId evt \<mapsto> expireCaches c1)\<rparr>,
                    effs1 @ [Reply (Fmt ''config & calendar caches expired'' [])])"
    using g by blast
qed

theorem expire_forces_reload_and_refresh_witness:
  "chatActivity (chat ''ops'' ''ann'')
   \<and> configCache expiredWorld (EvtRoomId (chat ''ops'' ''ann'')) = Some (expireCaches freshConfig)
   \<and> 66 * Minute < exNow
   \<and> exNow - configTs freshConfig = 5 * Minute \<and> exNow - calTs freshConfig = 5 * Minute
   \<and> (\<exists>w' post. handleEvt exEnv expiredWorld (chat ''ops'' ''ann'') exNow =
         Inr (w', [GetPrefCall ''ops'' ''calendar-id'', GetPrefCall ''ops'' ''autoreply'',
                   GetPrefCall ''ops'' ''announce-start'', GetPrefCall ''ops'' ''announce-end'',
                   GetPrefCall ''ops'' ''timezone'', GetEventsCall ''cal-1'' exNow] @ post))
   \<and> BodyAsArgv (command ''ops'' ''ann'' [''!gcal'', ''expire'']) = [''!gcal'', ''expire'']
   \<and> configCache freshWorld (EvtRoomId (command ''ops'' ''ann'' [''!gcal'', ''expire'']))
       = Some freshConfig
   \<and> handleCommand exEnv freshWorld (command ''ops'' ''ann'' [''!gcal'', ''expire'']) exNow
       = Inr (expiredWorld, [Reply (Fmt ''config & calendar caches expired'' [])])"
proof -
  let ?evt = "chat ''ops'' ''ann''"
  let ?cmd = "command ''ops'' ''ann'' [''!gcal'', ''expire'']"
  have a: "chatActivity ?evt" by (rule ex_chat)
  have c: "configCache expiredWorld (EvtRoomId ?evt) = Some (expireCaches freshConfig)"
    by (simp add: chat_def expiredWorld_def)
  have l: "66 * Minute < exNow" by (simp add: ex_time)
  have fr: "exNow - configTs freshConfig = 5 * Minute" "exNow - calTs freshConfig = 5 * Minute"
    by (simp_all add: freshConfig_def)
  have argv: "BodyAsArgv ?cmd = [''!gcal'', ''expire'']" by (simp add: command_def)
  have c2: "configCache freshWorld (EvtRoomId ?cmd) = Some freshConfig"
    by (simp add: command_def freshWorld_def)
  have rid: "RoomId (expireCaches freshConfig) = ''ops''"
    by (simp add: expireCaches_def freshConfig_def)
  note t = expire_forces_reload_and_refresh [of freshConfig ?evt expiredWorld exNow exEnv]
  from t a c l
  have "\<exists>w' post. handleEvt exEnv expiredWorld ?evt exNow =
            Inr (w', fst (snd (LoadFromPrefs exEnv exNow (expireCaches freshConfig)))
                     @ GetEventsCall
                         (CalendarId (fst (LoadFromPrefs exEnv exNow (expireCaches freshConfig))))
                         exNow
                     # post)"
    by blast
  then have 1: "\<exists>w' post. handleEvt exEnv expiredWorld ?evt exNow =
         Inr (w', [GetPrefCall ''ops'' ''calendar-id'', GetPrefCall ''ops'' ''autoreply'',
                   GetPrefCall ''ops'' ''announce-start'', GetPrefCall ''ops'' ''announce-end'',
                   GetPrefCall ''ops'' ''timezone'', GetEventsCall ''cal-1'' exNow] @ post)"
    by (simp add: ex_reload_ok [OF rid])
  have g: "getCachedConfig exEnv freshWorld (EvtRoomId ?cmd) exNow
             = Inr (freshWorld, freshConfig, [])"
    by (simp add: command_def ex_fresh_config)
  have ew: "freshWorld\<lparr>configCache := (configCache freshWorld)(EvtRoomId ?cmd \<mapsto>
               expireCaches freshConfig)\<rparr> = expiredWorld"
    by (simp add: freshWorld_def expiredWorld_def command_def)
  from expire_forces_reload_and_refresh [of freshConfig ?cmd freshWorld exNow exEnv] argv c2
  have "\<exists>w1 c1 effs1. getCachedConfig exEnv freshWorld (EvtRoomId ?cmd) exNow = Inr (w1, c1, effs1)
           \<and> handleCommand exEnv freshWorld ?cmd exNow =
               Inr (w1\<lparr>configCache := (configCache w1)(EvtRoomId ?cmd \<mapsto> expireCaches c1)\<rparr>,
                    effs1 @ [Reply (Fmt ''config & calendar caches expired'' [])])"
    by blast
  then have 2: "handleCommand exEnv freshWorld ?cmd exNow
       = Inr (expiredWorld, [Reply (Fmt ''config & calendar caches expired'' [])])"
    unfolding g using ew by auto
  show ?thesis using a c l fr 1 argv c2 2 by blast
qed

subsection \<open>Collisions of the spam keys\<close>

text \<open>
  C10. The spam keys are plain concatenations, \<open>gcal-spam-\<close>, the first argument,
  \<open>-\<close> and the second for the user key (\<open>handleEvt\<close> passes the room id first, the
  user id second), and \<open>gcal-spam-\<close> and the room id for the room key. They are not
  injective: two different pairs of user and room share a user key, and a user
  key equals the room key of another room. So after user \<open>c\<close> was answered in room
  \<open>a-b\<close>, user \<open>b-c\<close> and user \<open>b\<close> get no answer in room \<open>a\<close>, where
  without that record \<open>b-c\<close> is answered.
\<close>

theorem spam_keys_not_injective:
  "(\<forall>first second. getUserSpamKey first second = ''gcal-spam-'' @ first @ ''-'' @ second)
   \<and> (\<forall>roomId. getRoomSpamKey roomId = ''gcal-spam-'' @ roomId)
   \<and> (\<exists>u1 r1 u2 r2. (u1, r1) \<noteq> (u2, r2) \<and> getUserSpamKey r1 u1 = getUserSpamKey r2 u2)
   \<and> (\<exists>u r r'. r' \<noteq> r \<and> getUserSpamKey r u = getRoomSpamKey r')
   \<and> handleEvt exEnv twoRooms (chat ''a-b'' ''c'') exNow =
       Inr (notifiedTwoRooms,
            [Reply (Plain ''Daily standup''),
             SetKVCall ''gcal-spam-a-b-c'' (TimeString exEnv exNow) (Hour * 2),
             SetKVCall ''gcal-spam-a-b'' (TimeString exEnv exNow) (Minute * 10)])
   \<and> handleEvt exEnv twoRooms (chat ''a'' ''b-c'') exNow =
       Inr (SetKV (SetKV twoRooms exNow ''gcal-spam-a-b-c'' (TimeString exEnv exNow) (Hour * 2))
              exNow ''gcal-spam-a'' (TimeString exEnv exNow) (Minute * 10),
            [Reply (Plain ''Daily standup''),
             SetKVCall ''gcal-spam-a-b-c'' (TimeString exEnv exNow) (Hour * 2),
             SetKVCall ''gcal-spam-a'' (TimeString exEnv exNow) (Minute * 10)])
   \<and> handleEvt exEnv notifiedTwoRooms (chat ''a'' ''b-c'') exNow = Inr (notifiedTwoRooms, [])
   \<and> handleEvt exEnv notifiedTwoRooms (chat ''a'' ''b'') exNow = Inr (notifiedTwoRooms, [])"
proof (intro conjI allI)
  show "\<And>first second. getUserSpamKey first second = ''gcal-spam-'' @ first @ ''-'' @ second"
    by (simp add: getUserSpamKey_def)
  show "\<And>roomId. getRoomSpamKey roomId = ''gcal-spam-'' @ roomId"
    by (simp add: getRoomSpamKey_def)
  have "(''c'', ''a-b'') \<noteq> (''b-c'', ''a'') \<and> getUserSpamKey ''a-b'' ''c'' = getUserSpamKey ''a'' ''b-c''"
    by (simp add: getUserSpamKey_def)
  then show "\<exists>u1 r1 u2 r2. (u1, r1) \<noteq> (u2, r2) \<and> getUserSpamKey r1 u1 = getUserSpamKey r2 u2"
    by blast
  have "''a-b'' \<noteq> ''a'' \<and> getUserSpamKey ''a'' ''b'' = getRoomSpamKey ''a-b''"
    by (simp add: getUserSpamKey_def getRoomSpamKey_def)
  then show "\<exists>u r r'. r' \<noteq> r \<and> getUserSpamKey r u = getRoomSpamKey r'"
    by blast
  have ns: "\<And>u r. \<not> ShouldSuppress twoRooms exNow u r"
    by (simp add: ShouldSuppress_def GetKV_def twoRooms_def)
  show "handleEvt exEnv twoRooms (chat ''a-b'' ''c'') exNow =
       Inr (notifiedTwoRooms,
            [Reply (Plain ''Daily standup''),
             SetKVCall ''gcal-spam-a-b-c'' (TimeString exEnv exNow) (Hour * 2),
             SetKVCall ''gcal-spam-a-b'' (TimeString exEnv exNow) (Minute * 10)])"
    by (simp add: ex_chat_run [OF ex_two_rooms(2)] ns notifiedTwoRooms_def
        getUserSpamKey_def getRoomSpamKey_def)
  show "handleEvt exEnv twoRooms (chat ''a'' ''b-c'') exNow =
       Inr (SetKV (SetKV twoRooms exNow ''gcal-spam-a-b-c'' (TimeString exEnv exNow) (Hour * 2))
              exNow ''gcal-spam-a'' (TimeString exEnv exNow) (Minute * 10),
            [Reply (Plain ''Daily standup''),
             SetKVCall ''gcal-spam-a-b-c'' (TimeString exEnv exNow) (Hour * 2),
             SetKVCall ''gcal-spam-a'' (TimeString exEnv exNow) (Minute * 10)])"
    by (simp add: ex_chat_run [OF ex_two_rooms(1)] ns getUserSpamKey_def getRoomSpamKey_def)
  have s1: "ShouldSuppress notifiedTwoRooms exNow ''b-c'' ''a''"
    by (simp add: ShouldSuppress_def GetKV_def notifiedTwoRooms_def SetKV_def exEnv_def
        getUserSpamKey_def getRoomSpamKey_def Hour_def Minute_def Second_def)
  have s2: "ShouldSuppress notifiedTwoRooms exNow ''b'' ''a''"
    by (simp add: ShouldSuppress_def GetKV_def notifiedTwoRooms_def SetKV_def exEnv_def
        getUserSpamKey_def getRoomSpamKey_def Hour_def Minute_def Second_def)
  show "handleEvt exEnv notifiedTwoRooms (chat ''a'' ''b-c'') exNow = Inr (notifiedTwoRooms, [])"
    by (simp add: ex_chat_run [OF ex_two_rooms(3)] s1)
  show "handleEvt exEnv notifiedTwoRooms (chat ''a'' ''b'') exNow = Inr (notifiedTwoRooms, [])"
    by (simp add: ex_chat_run [OF ex_two_rooms(3)] s2)
qed

theorem spam_keys_not_injective_witness:
  "getUserSpamKey ''a-b'' ''c'' = ''gcal-spam-a-b-c''
   \<and> getUserSpamKey ''a'' ''b-c'' = ''gcal-spam-a-b-c''
   \<and> getUserSpamKey ''a'' ''b'' = ''gcal-spam-a-b''
   \<and> getRoomSpamKey ''a-b'' = ''gcal-spam-a-b''
   \<and> handleEvt exEnv notifiedTwoRooms (chat ''a'' ''b-c'') exNow = Inr (notifiedTwoRooms, [])
   \<and> handleEvt exEnv notifiedTwoRooms (chat ''a'' ''b'') exNow = Inr (notifiedTwoRooms, [])"
proof -
  note t = spam_keys_not_injective
  from t have u: "\<And>first second. getUserSpamKey first second = ''gcal-spam-'' @ first @ ''-'' @ second"
    by blast
  from t have r: "\<And>roomId. getRoomSpamKey roomId = ''gcal-spam-'' @ roomId"
    by blast
  from t have 1: "handleEvt exEnv notifiedTwoRooms (chat ''a'' ''b-c'') exNow = Inr (notifiedTwoRooms, [])"
    by blast
  from t have 2: "handleEvt exEnv notifiedTwoRooms (chat ''a'' ''b'') exNow = Inr (notifiedTwoRooms, [])"
    by blast
  show ?thesis using 1 2 by (simp add: u r)
qed

end
